theory Spec2Isabelle
  imports Complex_Main
begin

section \<open>Numbers and constants (constants.js)\<close>

text \<open>
  JavaScript numbers are IEEE doubles; the model idealises them as \<^typ>\<open>real\<close>, so a
  sum or a product is the exact one. A value that may be \<^verbatim>\<open>undefined\<close> or
  \<^verbatim>\<open>NaN\<close> (an array read out of range, and arithmetic on it) is a
  \<^typ>\<open>real option\<close>, \<open>None\<close> standing for the non-number: every comparison
  with it is false, as in JavaScript. Lane indices are integers.
\<close>

definition LANE_WIDTH :: real where
  "LANE_WIDTH = 2.5"

definition LANES :: "real list" where
  "LANES = [- LANE_WIDTH, 0, LANE_WIDTH]"

definition PLATFORM_DEPTH :: real where
  "PLATFORM_DEPTH = 2.0"

definition PLAYER_START_Z :: real where
  "PLAYER_START_Z = 2"

definition PLAYER_LANE_CHANGE_COOLDOWN :: real where
  "PLAYER_LANE_CHANGE_COOLDOWN = 1.0"

definition INITIAL_GAME_SPEED :: real where
  "INITIAL_GAME_SPEED = 7.0"

definition MAX_GAME_SPEED :: real where
  "MAX_GAME_SPEED = 50.0"

definition GAME_SPEED_INCREASE_RATE :: real where
  "GAME_SPEED_INCREASE_RATE = 0.35"

definition GAME_AREA_LENGTH :: real where
  "GAME_AREA_LENGTH = 75"

text \<open>\<^verbatim>\<open>LANES[i]\<close>: \<^verbatim>\<open>undefined\<close> outside the table.\<close>

definition LANES_at :: "int \<Rightarrow> real option" where
  "LANES_at i = (if 0 \<le> i \<and> i < int (length LANES) then Some (LANES ! nat i) else None)"

section \<open>Player (player.js)\<close>

text \<open>
  The fields of the \<^verbatim>\<open>Player\<close> class that the simulation reads or writes;
  \<open>positionX\<close>, \<open>positionY\<close>, \<open>positionZ\<close> are \<^verbatim>\<open>mesh.position\<close>.
  The sprite, its texture and the console output are left to the renderer.
\<close>

record player =
  targetLane :: int
  currentLane :: int
  isOnCooldown :: bool
  cooldownTimer :: real
  isJumping :: bool
  jumpStartY :: real
  jumpApexY :: real
  jumpDuration :: real
  jumpTimer :: real
  bounceTimer :: real
  bounceSpeed :: real
  bounceHeight :: real
  positionX :: "real option"
  positionY :: real
  positionZ :: real

definition PLAYER_HEIGHT :: real where
  "PLAYER_HEIGHT = 3.5"

definition setTargetLane :: "int \<Rightarrow> player \<Rightarrow> player" where
  "setTargetLane laneIndex p =
     (let newLane = max 0 (min 2 laneIndex) in
      if \<not> isOnCooldown p \<and> newLane \<noteq> targetLane p
      then p\<lparr>targetLane := newLane, isOnCooldown := True,
             cooldownTimer := PLAYER_LANE_CHANGE_COOLDOWN\<rparr>
      else p)"

definition jump :: "player \<Rightarrow> player" where
  "jump p = (if \<not> isJumping p then p\<lparr>isJumping := True, jumpTimer := 0\<rparr> else p)"

definition player_reset :: "player \<Rightarrow> player" where
  "player_reset p =
     p\<lparr>currentLane := 1, targetLane := 1, isOnCooldown := False, cooldownTimer := 0,
       isJumping := False, jumpTimer := 0, bounceTimer := 0,
       positionX := LANES_at 1, positionY := jumpStartY p, positionZ := PLAYER_START_Z\<rparr>"

text \<open>The constructor: the field initialisers, then \<^verbatim>\<open>this.reset()\<close>.\<close>

definition new_player :: player where
  "new_player =
     player_reset
       \<lparr>targetLane = 1, currentLane = 1, isOnCooldown = False, cooldownTimer = 0,
        isJumping = False, jumpStartY = PLAYER_HEIGHT / 2,
        jumpApexY = PLAYER_HEIGHT / 2 + 2.8, jumpDuration = 1.2, jumpTimer = 0,
        bounceTimer = 0, bounceSpeed = 8, bounceHeight = 0.1,
        positionX = Some 0, positionY = 0, positionZ = 0\<rparr>"

text \<open>
  \<^verbatim>\<open>update(deltaTime)\<close>, one definition for each block of the method, in the
  order of the source. In \<open>lane_movement\<close> the difference of two numbers of which
  one is \<^verbatim>\<open>undefined\<close> is \<^verbatim>\<open>NaN\<close>, the test
  \<^verbatim>\<open>Math.abs(difference) > 0.01\<close> is then false and the snap branch runs: the
  last case. In \<open>jump_physics\<close> the quotient \<^verbatim>\<open>jumpTimer / jumpDuration\<close>
  is HOL's, which is 0 for a zero divisor; \<open>jumpDuration\<close> is assigned once, 1.2, by the
  constructor. \<^verbatim>\<open>Math.sin\<close> is the sine of the reals, so a state is evaluated by
  the simplifier, which leaves the sine of a number as it stands; the bounce only sets
  the y coordinate of a player that is not jumping, which nothing else reads.
\<close>

definition bounce_animation :: "real \<Rightarrow> player \<Rightarrow> player" where
  "bounce_animation deltaTime p =
     (if \<not> isJumping p
      then (let bt = bounceTimer p + deltaTime * bounceSpeed p;
                bounceOffset = sin bt * bounceHeight p
            in p\<lparr>bounceTimer := bt, positionY := jumpStartY p + \<bar>bounceOffset\<bar>\<rparr>)
      else p)"

definition cooldown_timer :: "real \<Rightarrow> player \<Rightarrow> player" where
  "cooldown_timer deltaTime p =
     (if isOnCooldown p
      then (let t = cooldownTimer p - deltaTime in
            if t \<le> 0 then p\<lparr>isOnCooldown := False, cooldownTimer := 0\<rparr>
            else p\<lparr>cooldownTimer := t\<rparr>)
      else p)"

definition jump_physics :: "real \<Rightarrow> player \<Rightarrow> player" where
  "jump_physics deltaTime p =
     (if isJumping p
      then (let t = jumpTimer p + deltaTime;
                jumpProgress = min 1 (t / jumpDuration p);
                apexDelta = jumpApexY p - jumpStartY p;
                y = jumpStartY p + 4 * apexDelta * (jumpProgress - jumpProgress * jumpProgress)
            in if t \<ge> jumpDuration p
               then p\<lparr>jumpTimer := t, isJumping := False, positionY := jumpStartY p,
                      bounceTimer := 0\<rparr>
               else p\<lparr>jumpTimer := t, positionY := y\<rparr>)
      else p)"

definition lane_movement :: "real \<Rightarrow> player \<Rightarrow> player" where
  "lane_movement deltaTime p =
     (let moveSpeed = 25.0 :: real in
      case (LANES_at (targetLane p), positionX p) of
        (Some targetX, Some x) \<Rightarrow>
          (let difference = targetX - x in
           if \<bar>difference\<bar> > 0.01
           then (let moveDistance = difference * moveSpeed * deltaTime in
                 if \<bar>moveDistance\<bar> > \<bar>difference\<bar>
                 then p\<lparr>positionX := Some targetX\<rparr>
                 else p\<lparr>positionX := Some (x + moveDistance)\<rparr>)
           else p\<lparr>positionX := Some targetX, currentLane := targetLane p\<rparr>)
      | (targetX, _) \<Rightarrow> p\<lparr>positionX := targetX, currentLane := targetLane p\<rparr>)"

definition update_player :: "real \<Rightarrow> player \<Rightarrow> player" where
  "update_player deltaTime p =
     (lane_movement deltaTime (jump_physics deltaTime
        (cooldown_timer deltaTime (bounce_animation deltaTime p))))
     \<lparr>positionZ := PLAYER_START_Z\<rparr>"

text \<open>A sequence of \<^verbatim>\<open>update\<close> calls, one per element, first element first.\<close>

fun player_updates :: "real list \<Rightarrow> player \<Rightarrow> player" where
  "player_updates [] p = p"
| "player_updates (dt # dts) p = player_updates dts (update_player dt p)"

text \<open>
  The animated-model variant of the class (src/unnamed/part_001): \<^verbatim>\<open>setTargetLane\<close>,
  \<^verbatim>\<open>jump\<close>, the cooldown block and the lane-movement block are the same text;
  there is no bounce, the end of a jump leaves no bounce timer to clear, and the method
  ends by putting a player that is not jumping at the base height.
\<close>

definition jump_physics_model :: "real \<Rightarrow> player \<Rightarrow> player" where
  "jump_physics_model deltaTime p =
     (if isJumping p
      then (let t = jumpTimer p + deltaTime;
                jumpProgress = min 1 (t / jumpDuration p);
                apexDelta = jumpApexY p - jumpStartY p;
                y = jumpStartY p + 4 * apexDelta * (jumpProgress - jumpProgress * jumpProgress)
            in if t \<ge> jumpDuration p
               then p\<lparr>jumpTimer := t, isJumping := False, positionY := jumpStartY p\<rparr>
               else p\<lparr>jumpTimer := t, positionY := y\<rparr>)
      else p)"

definition update_player_model :: "real \<Rightarrow> player \<Rightarrow> player" where
  "update_player_model deltaTime p =
     (let q = (lane_movement deltaTime (jump_physics_model deltaTime
                 (cooldown_timer deltaTime p)))\<lparr>positionZ := PLAYER_START_Z\<rparr>
      in if \<not> isJumping q then q\<lparr>positionY := jumpStartY q\<rparr> else q)"

section \<open>Particle emitters (ParticleManager.js)\<close>

text \<open>
  A particle system is an object that a hazard and the manager's lists both refer to, so
  the manager keeps a store from references to objects; \<open>next_ref\<close> is the number of
  systems constructed so far, the reference of the next one. Of a system the model keeps
  its \<^verbatim>\<open>visible\<close> flag and the z coordinate of its position; the per-particle
  buffers, which only \<^verbatim>\<open>update\<close>, \<^verbatim>\<open>getSystem\<close> and the constructor
  write and nothing but the renderer reads, the x and y coordinates and the scene graph
  are left out.
\<close>

record psystem =
  sys_z :: real
  sys_visible :: bool

record particle_manager =
  systems :: "nat \<rightharpoonup> psystem"
  particleSystems :: "nat list"
  system_pool :: "nat list"
  next_ref :: nat

definition modify_system :: "nat \<Rightarrow> (psystem \<Rightarrow> psystem) \<Rightarrow> particle_manager \<Rightarrow> particle_manager" where
  "modify_system r f pm =
     (case systems pm r of
        Some s \<Rightarrow> pm\<lparr>systems := (systems pm)(r \<mapsto> f s)\<rparr>
      | None \<Rightarrow> pm)"

definition new_particle_manager :: particle_manager where
  "new_particle_manager =
     \<lparr>systems = Map.empty, particleSystems = [], system_pool = [], next_ref = 0\<rparr>"

definition createParticleSystem :: "particle_manager \<Rightarrow> nat \<times> particle_manager" where
  "createParticleSystem pm =
     (next_ref pm,
      pm\<lparr>systems := (systems pm)(next_ref pm \<mapsto> \<lparr>sys_z = 0, sys_visible = True\<rparr>),
         next_ref := Suc (next_ref pm)\<rparr>)"

definition getSystem :: "real \<Rightarrow> particle_manager \<Rightarrow> nat \<times> particle_manager" where
  "getSystem z pm =
     (let (system, pm1) =
            (if system_pool pm \<noteq> []
             then (last (system_pool pm),
                   modify_system (last (system_pool pm)) (\<lambda>s. s\<lparr>sys_visible := True\<rparr>)
                     (pm\<lparr>system_pool := butlast (system_pool pm)\<rparr>))
             else createParticleSystem pm);
          pm2 = modify_system system (\<lambda>s. s\<lparr>sys_z := z\<rparr>) pm1
      in (system, pm2\<lparr>particleSystems := particleSystems pm2 @ [system]\<rparr>))"

text \<open>\<^verbatim>\<open>indexOf\<close> and \<^verbatim>\<open>splice\<close> remove the first occurrence, if there is one.\<close>

definition returnSystem :: "nat \<Rightarrow> particle_manager \<Rightarrow> particle_manager" where
  "returnSystem system pm =
     (let pm1 = modify_system system (\<lambda>s. s\<lparr>sys_visible := False\<rparr>) pm
      in pm1\<lparr>particleSystems := remove1 system (particleSystems pm1),
             system_pool := system_pool pm1 @ [system]\<rparr>)"

text \<open>\<^verbatim>\<open>update(deltaTime)\<close> writes the per-particle buffers only.\<close>

definition particle_update :: "real \<Rightarrow> particle_manager \<Rightarrow> particle_manager" where
  "particle_update deltaTime pm = pm"

lemma returnSystem_shrinks:
  "particleSystems pm \<noteq> [] \<Longrightarrow>
   length (particleSystems (returnSystem (hd (particleSystems pm)) pm)) < length (particleSystems pm)"
  by (cases "particleSystems pm")
     (auto simp: returnSystem_def modify_system_def Let_def split: option.splits)

function particle_reset :: "particle_manager \<Rightarrow> particle_manager" where
  "particle_reset pm =
     (if particleSystems pm \<noteq> []
      then particle_reset (returnSystem (hd (particleSystems pm)) pm)
      else pm)"
  by pat_completeness auto
termination
  by (relation "measure (\<lambda>pm. length (particleSystems pm))")
     (auto simp: returnSystem_shrinks)

section \<open>Hazards (lavaManager.js)\<close>

definition INITIAL_SPAWN_INTERVAL :: real where
  "INITIAL_SPAWN_INTERVAL = 4.0"

definition MIN_SPAWN_INTERVAL :: real where
  "MIN_SPAWN_INTERVAL = 0.9"

definition SPAWN_INTERVAL_DECREMENT :: real where
  "SPAWN_INTERVAL_DECREMENT = 0.25"

text \<open>
  A lava mesh: \<open>lava_ref\<close> is its identity (the meshes constructed so far are numbered),
  \<open>lane\<close> and \<open>particleSystem\<close> are its \<^verbatim>\<open>userData\<close>, \<open>lava_z\<close> is
  \<^verbatim>\<open>position.z\<close>. Its x and y coordinates are drawn, never read: the collision
  check takes x from \<^verbatim>\<open>LANES[lava.userData.lane]\<close>. A mesh is in one list at a
  time, so the lists hold the meshes themselves. The manager's \<^verbatim>\<open>pool\<close> is
  \<open>lava_pool\<close> here.
\<close>

record lava =
  lava_ref :: nat
  lane :: int
  lava_z :: real
  lava_visible :: bool
  particleSystem :: "nat option"

record lava_manager =
  lavaHazards :: "lava list"
  lava_pool :: "lava list"
  spawnTimer :: real
  spawnInterval :: real
  nextSpawnZ :: real
  particleManager :: particle_manager
  lava_created :: nat

definition new_lava_manager :: lava_manager where
  "new_lava_manager =
     \<lparr>lavaHazards = [], lava_pool = [], spawnTimer = 0,
      spawnInterval = INITIAL_SPAWN_INTERVAL, nextSpawnZ = - GAME_AREA_LENGTH / 2,
      particleManager = new_particle_manager, lava_created = 0\<rparr>"

fun release_all :: "lava list \<Rightarrow> lava_manager \<Rightarrow> lava_manager" where
  "release_all [] m = m"
| "release_all (l # ls) m =
     release_all ls
       (m\<lparr>particleManager :=
            (case particleSystem l of
               Some s \<Rightarrow> returnSystem s (particleManager m)
             | None \<Rightarrow> particleManager m),
          lava_pool := lava_pool m @ [l\<lparr>lava_visible := False\<rparr>]\<rparr>)"

definition lava_reset :: "lava_manager \<Rightarrow> lava_manager" where
  "lava_reset m =
     (let m1 = release_all (lavaHazards m) m;
          m2 = m1\<lparr>lavaHazards := []\<rparr>;
          m3 = m2\<lparr>particleManager := particle_reset (particleManager m2)\<rparr>
      in m3\<lparr>spawnTimer := INITIAL_SPAWN_INTERVAL * 0.75,
            nextSpawnZ := - GAME_AREA_LENGTH / 2,
            spawnInterval := INITIAL_SPAWN_INTERVAL\<rparr>)"

text \<open>
  A mesh that \<^verbatim>\<open>new THREE.Mesh\<close> returns is visible and has empty
  \<^verbatim>\<open>userData\<close>; \<^verbatim>\<open>_spawnLava\<close>, the only caller, assigns the lane before
  anything reads it.
\<close>

definition createLavaMesh :: "lava_manager \<Rightarrow> lava \<times> lava_manager" where
  "createLavaMesh m =
     (if lava_pool m \<noteq> []
      then ((last (lava_pool m))\<lparr>lava_visible := True\<rparr>,
            m\<lparr>lava_pool := butlast (lava_pool m)\<rparr>)
      else (\<lparr>lava_ref = lava_created m, lane = 0, lava_z = 0, lava_visible = True,
             particleSystem = None\<rparr>,
            m\<lparr>lava_created := Suc (lava_created m)\<rparr>))"

text \<open>\<open>rnd\<close> is what \<^verbatim>\<open>Math.random()\<close> returns in this call.\<close>

definition spawnLava :: "real \<Rightarrow> real \<Rightarrow> lava_manager \<Rightarrow> lava_manager" where
  "spawnLava targetZ rnd m =
     (let (l, m1) = createLavaMesh m;
          l1 = l\<lparr>lava_z := targetZ, lane := \<lfloor>rnd * 3\<rfloor>\<rparr>;
          (system, pm) = getSystem targetZ (particleManager m1);
          l2 = l1\<lparr>particleSystem := Some system\<rparr>
      in m1\<lparr>particleManager := pm, lavaHazards := lavaHazards m1 @ [l2]\<rparr>)"

text \<open>
  The body of the movement loop at index \<open>i\<close>, and the loop, which runs from the last
  index down to 0. A removal at \<open>i\<close> leaves the indices below \<open>i\<close> in place, so the
  index is always in range.
\<close>

definition move_despawn_at :: "nat \<Rightarrow> real \<Rightarrow> real \<Rightarrow> lava_manager \<Rightarrow> lava_manager" where
  "move_despawn_at i moveZ playerZ m =
     (let l0 = lavaHazards m ! i;
          l = l0\<lparr>lava_z := lava_z l0 + moveZ\<rparr>;
          pm1 = (case particleSystem l of
                   Some s \<Rightarrow> modify_system s (\<lambda>x. x\<lparr>sys_z := sys_z x + moveZ\<rparr>) (particleManager m)
                 | None \<Rightarrow> particleManager m)
      in if lava_z l > playerZ + PLATFORM_DEPTH * 2
         then m\<lparr>particleManager :=
                  (case particleSystem l of
                     Some s \<Rightarrow> returnSystem s pm1
                   | None \<Rightarrow> pm1),
                lava_pool := lava_pool m @ [l\<lparr>particleSystem := None, lava_visible := False\<rparr>],
                lavaHazards := take i (lavaHazards m) @ drop (Suc i) (lavaHazards m)\<rparr>
         else m\<lparr>particleManager := pm1, lavaHazards := (lavaHazards m)[i := l]\<rparr>)"

fun move_despawn :: "nat \<Rightarrow> real \<Rightarrow> real \<Rightarrow> lava_manager \<Rightarrow> lava_manager" where
  "move_despawn 0 moveZ playerZ m = m"
| "move_despawn (Suc i) moveZ playerZ m =
     move_despawn i moveZ playerZ
       (if i < length (lavaHazards m) then move_despawn_at i moveZ playerZ m else m)"

definition lava_update :: "real \<Rightarrow> real \<Rightarrow> real \<Rightarrow> real \<Rightarrow> lava_manager \<Rightarrow> lava_manager" where
  "lava_update deltaTime playerZ currentSpeed rnd m =
     (let m1 = m\<lparr>particleManager := particle_update deltaTime (particleManager m)\<rparr>;
          m2 = m1\<lparr>spawnTimer := spawnTimer m1 + deltaTime\<rparr>;
          m3 = (if spawnTimer m2 \<ge> spawnInterval m2
                then (let spawnZ = playerZ - GAME_AREA_LENGTH * 0.9;
                          m4 = (spawnLava spawnZ rnd m2)\<lparr>spawnTimer := 0\<rparr>
                      in if spawnInterval m4 > MIN_SPAWN_INTERVAL
                         then m4\<lparr>spawnInterval :=
                                   max MIN_SPAWN_INTERVAL
                                     (spawnInterval m4 - SPAWN_INTERVAL_DECREMENT)\<rparr>
                         else m4)
                else m2)
      in move_despawn (length (lavaHazards m3)) (currentSpeed * deltaTime) playerZ m3)"

text \<open>
  \<^verbatim>\<open>checkCollision(player)\<close>: the loop over the hazards, in the order of the list.
  A hazard whose lane is outside the table has \<^verbatim>\<open>laneX\<close> undefined, the
  difference is \<^verbatim>\<open>NaN\<close> and the x test fails.
\<close>

definition JUMP_CLEARANCE_HEIGHT :: real where
  "JUMP_CLEARANCE_HEIGHT = 0.3"

fun collision_loop :: "player \<Rightarrow> lava list \<Rightarrow> bool" where
  "collision_loop p [] = False"
| "collision_loop p (l # ls) =
     (case (positionX p, LANES_at (lane l)) of
        (Some x, Some laneX) \<Rightarrow>
          if \<bar>x - laneX\<bar> < LANE_WIDTH / 2 * 0.9
          then (let lavaStartZ = lava_z l - PLATFORM_DEPTH / 2;
                    lavaEndZ = lava_z l + PLATFORM_DEPTH / 2
                in if positionZ p \<ge> lavaStartZ \<and> positionZ p \<le> lavaEndZ
                   then (if isJumping p \<and> positionY p > jumpStartY p + JUMP_CLEARANCE_HEIGHT
                         then collision_loop p ls
                         else True)
                   else collision_loop p ls)
          else collision_loop p ls
      | _ \<Rightarrow> collision_loop p ls)"

definition checkCollision :: "lava_manager \<Rightarrow> player \<Rightarrow> bool" where
  "checkCollision m p = collision_loop p (lavaHazards m)"

section \<open>The session (game.js)\<close>

text \<open>
  The \<^verbatim>\<open>Game\<close> object without its scene, camera, renderer and display
  callbacks. What a frame takes from outside is a parameter: the handle that
  \<^verbatim>\<open>requestAnimationFrame\<close> returns, the seconds that
  \<^verbatim>\<open>clock.getDelta()\<close> returns, and the number \<^verbatim>\<open>Math.random()\<close>
  returns if a hazard is spawned.
\<close>

record game =
  player :: player
  lavaManager :: lava_manager
  running :: bool
  gameOver :: bool
  score :: real
  currentSpeed :: real
  animationId :: "nat option"

record frame =
  frame_handle :: nat
  frame_delta :: real
  frame_random :: real

definition SCORE_RATE :: real where
  "SCORE_RATE = 10"

definition new_game :: game where
  "new_game =
     \<lparr>player = new_player, lavaManager = new_lava_manager, running = False,
      gameOver = False, score = 0, currentSpeed = INITIAL_GAME_SPEED, animationId = None\<rparr>"

text \<open>\<^verbatim>\<open>if (this.animationId)\<close> is false for \<^verbatim>\<open>null\<close> and for 0.\<close>

definition stopGameLoop :: "game \<Rightarrow> game" where
  "stopGameLoop g =
     (let g1 = g\<lparr>running := False\<rparr> in
      case animationId g1 of
        Some h \<Rightarrow> if h \<noteq> 0 then g1\<lparr>animationId := None\<rparr> else g1
      | None \<Rightarrow> g1)"

definition game_stop :: "game \<Rightarrow> game" where
  "game_stop g = (stopGameLoop g)\<lparr>gameOver := True\<rparr>"

definition resetGameState :: "game \<Rightarrow> game" where
  "resetGameState g =
     g\<lparr>score := 0, currentSpeed := INITIAL_GAME_SPEED, running := False, gameOver := False,
       lavaManager := lava_reset (lavaManager g), player := player_reset (player g)\<rparr>"

definition isRunning :: "game \<Rightarrow> bool" where
  "isRunning g = (running g \<and> \<not> gameOver g)"

text \<open>
  \<^verbatim>\<open>_update()\<close>. \<open>game_advance\<close> is the part of the method between the
  tests of the running state and the collision check: speed, player, hazards, score. The
  second test of the running state, after the clock is read, sees the state the first one
  saw. The camera, the light and the rendering that end the method change nothing of the
  state kept here.
\<close>

definition game_advance :: "frame \<Rightarrow> game \<Rightarrow> game" where
  "game_advance fr g1 =
     (let deltaTime = frame_delta fr;
          g2 = g1\<lparr>currentSpeed :=
                   min MAX_GAME_SPEED
                     (currentSpeed g1 + GAME_SPEED_INCREASE_RATE * deltaTime)\<rparr>;
          g3 = g2\<lparr>player := update_player deltaTime (player g2)\<rparr>;
          g4 = g3\<lparr>lavaManager :=
                   lava_update deltaTime (positionZ (player g3)) (currentSpeed g3)
                     (frame_random fr) (lavaManager g3)\<rparr>
      in g4\<lparr>score := score g4 + deltaTime * SCORE_RATE\<rparr>)"

definition game_update :: "frame \<Rightarrow> game \<Rightarrow> game" where
  "game_update fr g =
     (let g1 = g\<lparr>animationId := Some (frame_handle fr)\<rparr> in
      if \<not> running g1 \<or> gameOver g1 then stopGameLoop g1
      else if \<not> running g1 \<or> gameOver g1 then stopGameLoop g1
      else
        (let g5 = game_advance fr g1;
             hitLava = checkCollision (lavaManager g5) (player g5)
         in if hitLava
            then stopGameLoop (g5\<lparr>gameOver := True, running := False\<rparr>)
            else g5))"

text \<open>
  \<^verbatim>\<open>start()\<close> stops the loop at once and leaves the rest to an animation-frame
  callback: \<open>game_start\<close> is the call, \<open>game_start_frame\<close> the callback, which ends
  with the first \<^verbatim>\<open>_update()\<close>.
\<close>

definition game_start :: "game \<Rightarrow> game" where
  "game_start g = stopGameLoop g"

definition game_start_frame :: "frame \<Rightarrow> game \<Rightarrow> game" where
  "game_start_frame fr g =
     game_update fr ((resetGameState g)\<lparr>running := True, gameOver := False\<rparr>)"

fun game_updates :: "frame list \<Rightarrow> game \<Rightarrow> game" where
  "game_updates [] g = g"
| "game_updates (fr # frs) g = game_updates frs (game_update fr g)"

section \<open>Input and the page (main.js)\<close>

text \<open>
  The module's variables: the game (\<^verbatim>\<open>null\<close> until the start button is
  pressed) and the two variables of the pose-based jump detection. The page's elements
  are left out.
\<close>

record world =
  the_game :: "game option"
  restingShoulderY :: "real option"
  poseJumpCooldownTimer :: real

definition JUMP_DETECTION_THRESHOLD :: real where
  "JUMP_DETECTION_THRESHOLD = 0.06"

definition POSE_JUMP_COOLDOWN :: real where
  "POSE_JUMP_COOLDOWN = 0.7"

definition initial_world :: world where
  "initial_world = \<lparr>the_game = None, restingShoulderY = None, poseJumpCooldownTimer = 0\<rparr>"

definition handleKeyDown :: "string \<Rightarrow> world \<Rightarrow> world" where
  "handleKeyDown key w =
     (case the_game w of
        Some g \<Rightarrow>
          if isRunning g
          then (if key = ''ArrowLeft'' \<or> key = ''a''
                then w\<lparr>the_game := Some (g\<lparr>player := setTargetLane (targetLane (player g) - 1) (player g)\<rparr>)\<rparr>
                else if key = ''ArrowRight'' \<or> key = ''d''
                then w\<lparr>the_game := Some (g\<lparr>player := setTargetLane (targetLane (player g) + 1) (player g)\<rparr>)\<rparr>
                else w)
          else w
      | None \<Rightarrow> w)"

definition handlePoseUpdate :: "real \<Rightarrow> real \<Rightarrow> world \<Rightarrow> world" where
  "handlePoseUpdate normX normShoulderY w =
     (case the_game w of
        Some g \<Rightarrow>
          if isRunning g
          then
            (let mirroredNormX = 1.0 - normX;
                 p1 = (if mirroredNormX < 0.35 then setTargetLane 0 (player g)
                       else if mirroredNormX > 0.65 then setTargetLane 2 (player g)
                       else setTargetLane 1 (player g));
                 timer1 = (if poseJumpCooldownTimer w > 0
                           then poseJumpCooldownTimer w - 1 / 60
                           else poseJumpCooldownTimer w);
                 resting1 = (if restingShoulderY w = None \<and> normShoulderY > 0 \<and> normShoulderY < 1
                             then Some normShoulderY
                             else restingShoulderY w)
             in case resting1 of
                  Some resting \<Rightarrow>
                    if timer1 \<le> 0
                    then (let yDifference = resting - normShoulderY in
                          if yDifference > JUMP_DETECTION_THRESHOLD
                          then w\<lparr>the_game := Some (g\<lparr>player := jump p1\<rparr>),
                                 poseJumpCooldownTimer := POSE_JUMP_COOLDOWN,
                                 restingShoulderY :=
                                   Some (normShoulderY + JUMP_DETECTION_THRESHOLD * 0.5)\<rparr>
                          else if normShoulderY > resting + JUMP_DETECTION_THRESHOLD * 0.5
                                  \<and> \<not> isJumping p1
                          then w\<lparr>the_game := Some (g\<lparr>player := p1\<rparr>),
                                 poseJumpCooldownTimer := timer1,
                                 restingShoulderY := Some (resting * 0.99 + normShoulderY * 0.01)\<rparr>
                          else w\<lparr>the_game := Some (g\<lparr>player := p1\<rparr>),
                                 poseJumpCooldownTimer := timer1,
                                 restingShoulderY := resting1\<rparr>)
                    else w\<lparr>the_game := Some (g\<lparr>player := p1\<rparr>),
                           poseJumpCooldownTimer := timer1,
                           restingShoulderY := resting1\<rparr>
                | None \<Rightarrow> w\<lparr>the_game := Some (g\<lparr>player := p1\<rparr>),
                             poseJumpCooldownTimer := timer1,
                             restingShoulderY := resting1\<rparr>)
          else w
      | None \<Rightarrow> w)"

definition resetGameSession :: "world \<Rightarrow> world" where
  "resetGameSession w = w\<lparr>restingShoulderY := None, poseJumpCooldownTimer := 0\<rparr>"

text \<open>
  What can happen to the page: the start button is pressed (a new \<^verbatim>\<open>Game\<close>, the
  session variables reset, \<^verbatim>\<open>game.start()\<close>); the callback of a
  \<^verbatim>\<open>start()\<close> runs; an animation frame runs \<^verbatim>\<open>_update\<close>; a key goes down;
  the pose tracker delivers a sample; the restart button is pressed
  (\<^verbatim>\<open>game.stop()\<close>) and, 100 ms later, its timeout runs (the session variables
  reset, \<^verbatim>\<open>game.start()\<close>); the player's sprite has loaded, or failed to load,
  and the loader's callback calls \<^verbatim>\<open>player.reset()\<close>.
\<close>

datatype event =
  StartClick
  | StartFrame frame
  | Frame frame
  | KeyDown string
  | PoseUpdate real real
  | RestartClick
  | RestartTimeout
  | SpriteLoaded

definition on_game :: "(game \<Rightarrow> game) \<Rightarrow> world \<Rightarrow> world" where
  "on_game f w = (case the_game w of Some g \<Rightarrow> w\<lparr>the_game := Some (f g)\<rparr> | None \<Rightarrow> w)"

fun step :: "event \<Rightarrow> world \<Rightarrow> world" where
  "step StartClick w = resetGameSession (w\<lparr>the_game := Some (game_start new_game)\<rparr>)"
| "step (StartFrame fr) w = on_game (game_start_frame fr) w"
| "step (Frame fr) w = on_game (game_update fr) w"
| "step (KeyDown key) w = handleKeyDown key w"
| "step (PoseUpdate normX normShoulderY) w = handlePoseUpdate normX normShoulderY w"
| "step RestartClick w = on_game game_stop w"
| "step RestartTimeout w = on_game game_start (resetGameSession w)"
| "step SpriteLoaded w = on_game (\<lambda>g. g\<lparr>player := player_reset (player g)\<rparr>) w"

fun steps :: "event list \<Rightarrow> world \<Rightarrow> world" where
  "steps [] w = w"
| "steps (e # es) w = steps es (step e w)"

section \<open>The collision rule as the specification words it\<close>

text \<open>
  The three conditions of the specification's collision rule, each as a predicate on the
  player and one hazard, and the rule: some active hazard overlaps the player in lane and
  in z and the player's jump does not clear it.
\<close>

definition lane_overlap :: "player \<Rightarrow> lava \<Rightarrow> bool" where
  "lane_overlap p l =
     (case (positionX p, LANES_at (lane l)) of
        (Some playerX, Some laneX) \<Rightarrow> \<bar>playerX - laneX\<bar> < LANE_WIDTH / 2 * 0.9
      | _ \<Rightarrow> False)"

definition z_overlap :: "player \<Rightarrow> lava \<Rightarrow> bool" where
  "z_overlap p l =
     (lava_z l - PLATFORM_DEPTH / 2 \<le> positionZ p \<and> positionZ p \<le> lava_z l + PLATFORM_DEPTH / 2)"

definition jump_clears :: "player \<Rightarrow> bool" where
  "jump_clears p = (isJumping p \<and> positionY p > jumpStartY p + JUMP_CLEARANCE_HEIGHT)"

definition collision_spec :: "player \<Rightarrow> lava list \<Rightarrow> bool" where
  "collision_spec p hazards =
     (\<exists>l\<in>set hazards. lane_overlap p l \<and> z_overlap p l \<and> \<not> jump_clears p)"

text \<open>The player placed at the exact x coordinate of its current lane.\<close>

definition at_current_lane :: "player \<Rightarrow> player" where
  "at_current_lane p = p\<lparr>positionX := LANES_at (currentLane p)\<rparr>"

text \<open>A manager with one active hazard, in the given lane at the given z.\<close>

definition one_hazard :: "int \<Rightarrow> real \<Rightarrow> lava_manager" where
  "one_hazard k z = spawnLava z (real_of_int k / 3) new_lava_manager"

text \<open>The player two frames of 16 ms after \<^verbatim>\<open>setTargetLane(0)\<close> from the start.\<close>

definition mid_change :: player where
  "mid_change = update_player 0.016 (update_player 0.016 (setTargetLane 0 new_player))"

section \<open>Runs and observations used to state the properties\<close>

text \<open>
  A sequence of \<^verbatim>\<open>LavaManager.update\<close> calls; each element gives the arguments
  of one call (\<^verbatim>\<open>deltaTime\<close>, \<^verbatim>\<open>playerZ\<close>, \<^verbatim>\<open>currentSpeed\<close>)
  and the random number drawn if it spawns.
\<close>

fun lava_updates :: "(real \<times> real \<times> real \<times> real) list \<Rightarrow> lava_manager \<Rightarrow> lava_manager" where
  "lava_updates [] m = m"
| "lava_updates ((deltaTime, playerZ, speed, rnd) # ts) m =
     lava_updates ts (lava_update deltaTime playerZ speed rnd m)"

text \<open>What the page shows of the game: whether it is over, and its score.\<close>

definition game_over :: "world \<Rightarrow> bool" where
  "game_over w = (case the_game w of Some g \<Rightarrow> gameOver g | None \<Rightarrow> False)"

definition world_score :: "world \<Rightarrow> real option" where
  "world_score w = map_option score (the_game w)"

text \<open>The events that begin a session: they construct a game or run the reset.\<close>

fun starts_session :: "event \<Rightarrow> bool" where
  "starts_session StartClick = True"
| "starts_session (StartFrame fr) = True"
| "starts_session e = False"

text \<open>
  The collision check of a frame reports a hit: \<^verbatim>\<open>checkCollision\<close> is true on the
  state that \<^verbatim>\<open>_update\<close> has advanced.
\<close>

definition frame_hit :: "frame \<Rightarrow> game \<Rightarrow> bool" where
  "frame_hit fr g =
     (let g5 = game_advance fr (g\<lparr>animationId := Some (frame_handle fr)\<rparr>)
      in checkCollision (lavaManager g5) (player g5))"

text \<open>A session that has just been started, and five frames of one second each.\<close>

definition fresh_session :: game where
  "fresh_session =
     game_start_frame \<lparr>frame_handle = 1, frame_delta = 0, frame_random = 0.5\<rparr> new_game"

definition five_seconds :: "frame list" where
  "five_seconds =
     [\<lparr>frame_handle = 2, frame_delta = 1, frame_random = 0.5\<rparr>,
      \<lparr>frame_handle = 3, frame_delta = 1, frame_random = 0.5\<rparr>,
      \<lparr>frame_handle = 4, frame_delta = 1, frame_random = 0.5\<rparr>,
      \<lparr>frame_handle = 5, frame_delta = 1, frame_random = 0.5\<rparr>,
      \<lparr>frame_handle = 6, frame_delta = 1, frame_random = 0.5\<rparr>]"

text \<open>
  The page after the start button and the callback of \<^verbatim>\<open>start()\<close>; and a frame
  that comes 7.1 seconds after the one before it.
\<close>

definition playing :: world where
  "playing =
     steps [StartClick, StartFrame \<lparr>frame_handle = 1, frame_delta = 0, frame_random = 0.5\<rparr>]
       initial_world"

definition long_frame :: frame where
  "long_frame = \<lparr>frame_handle = 2, frame_delta = 7.1, frame_random = 0.5\<rparr>"

text \<open>
  The handlers' test \<^verbatim>\<open>game && game.isRunning()\<close>; the events that deliver a
  pose sample; and the page after two samples, shoulders at rest at 0.5 and then raised to
  0.4, which is detected as a jump and starts the cooldown.
\<close>

definition world_running :: "world \<Rightarrow> bool" where
  "world_running w = (case the_game w of Some g \<Rightarrow> isRunning g | None \<Rightarrow> False)"

fun is_pose :: "event \<Rightarrow> bool" where
  "is_pose (PoseUpdate normX normShoulderY) = True"
| "is_pose e = False"

definition cooling :: world where
  "cooling = steps [PoseUpdate 0.5 0.5, PoseUpdate 0.5 0.4] playing"

text \<open>
  The emitters that the hazards of a list refer to; and the session one second after its
  start, when the first hazard has been spawned.
\<close>

fun emitters_of :: "lava list \<Rightarrow> nat list" where
  "emitters_of [] = []"
| "emitters_of (l # ls) =
     (case particleSystem l of Some s \<Rightarrow> s # emitters_of ls | None \<Rightarrow> emitters_of ls)"

definition one_second :: game where
  "one_second = game_update \<lparr>frame_handle = 2, frame_delta = 1, frame_random = 0.5\<rparr> fresh_session"

section \<open>Properties of the player\<close>

lemmas player_consts = new_player_def player_reset_def PLAYER_HEIGHT_def LANES_at_def LANES_def
  LANE_WIDTH_def PLAYER_START_Z_def PLAYER_LANE_CHANGE_COOLDOWN_def

subsection \<open>Lane changes\<close>

lemma clamp_lane: "max 0 (min 2 (l::int)) \<in> {0, 1, 2}"
  by (auto simp: max_def min_def)

lemma bounce_animation_cooldown [simp]:
  "isOnCooldown (bounce_animation dt p) = isOnCooldown p"
  "cooldownTimer (bounce_animation dt p) = cooldownTimer p"
  by (simp_all add: bounce_animation_def Let_def)

lemma jump_physics_cooldown [simp]:
  "isOnCooldown (jump_physics dt p) = isOnCooldown p"
  "cooldownTimer (jump_physics dt p) = cooldownTimer p"
  by (simp_all add: jump_physics_def Let_def)

lemma lane_movement_cooldown [simp]:
  "isOnCooldown (lane_movement dt p) = isOnCooldown p"
  "cooldownTimer (lane_movement dt p) = cooldownTimer p"
  by (simp_all add: lane_movement_def Let_def split: option.splits)

lemma cooldown_timer_invariant:
  "isOnCooldown p = (0 < cooldownTimer p) \<Longrightarrow>
   isOnCooldown (cooldown_timer dt p) = (0 < cooldownTimer (cooldown_timer dt p))"
  by (simp add: cooldown_timer_def Let_def)

lemma update_player_cooldown:
  "isOnCooldown p = (0 < cooldownTimer p) \<Longrightarrow>
   isOnCooldown (update_player dt p) = (0 < cooldownTimer (update_player dt p))"
  using cooldown_timer_invariant [of "bounce_animation dt p" dt]
  by (simp add: update_player_def)

text \<open>
  C6. \<^verbatim>\<open>setTargetLane(lane)\<close> clamps its argument to \<open>[0,2]\<close>; it changes nothing
  while the lane-change cooldown runs or when the clamped lane is already the target;
  otherwise it stores the clamped lane and starts the cooldown of 1.0 seconds. A call
  that took effect makes the next call, with no \<^verbatim>\<open>update\<close> between them, a
  no-op, and a target lane in \<open>{0,1,2}\<close> stays there. The flag \<open>isOnCooldown\<close> is
  what the method tests; that it holds exactly while the cooldown timer is positive is
  kept by \<^verbatim>\<open>setTargetLane\<close> and by \<^verbatim>\<open>update\<close>.
\<close>

theorem setTargetLane_contract:
  "max 0 (min 2 k) \<in> {0, 1, 2}
   \<and> (isOnCooldown p \<or> max 0 (min 2 k) = targetLane p \<longrightarrow> setTargetLane k p = p)
   \<and> (\<not> isOnCooldown p \<and> max 0 (min 2 k) \<noteq> targetLane p \<longrightarrow>
        setTargetLane k p =
          p\<lparr>targetLane := max 0 (min 2 k), isOnCooldown := True, cooldownTimer := 1.0\<rparr>)
   \<and> (setTargetLane k p \<noteq> p \<longrightarrow>
        setTargetLane k' (setTargetLane k p) = setTargetLane k p
        \<and> targetLane (setTargetLane k' (setTargetLane k p)) = max 0 (min 2 k))
   \<and> (targetLane p \<in> {0, 1, 2} \<longrightarrow> targetLane (setTargetLane k p) \<in> {0, 1, 2})
   \<and> (isOnCooldown p = (0 < cooldownTimer p) \<longrightarrow>
        isOnCooldown (setTargetLane k p) = (0 < cooldownTimer (setTargetLane k p))
        \<and> isOnCooldown (update_player dt p) = (0 < cooldownTimer (update_player dt p)))"
proof -
  have c: "max 0 (min 2 k) \<in> {0, 1, 2}"
    by (rule clamp_lane)
  have noop: "isOnCooldown p \<or> max 0 (min 2 k) = targetLane p \<longrightarrow> setTargetLane k p = p"
    by (auto simp: setTargetLane_def Let_def)
  have eff: "\<not> isOnCooldown p \<and> max 0 (min 2 k) \<noteq> targetLane p \<longrightarrow>
        setTargetLane k p =
          p\<lparr>targetLane := max 0 (min 2 k), isOnCooldown := True, cooldownTimer := 1.0\<rparr>"
    by (simp add: setTargetLane_def Let_def PLAYER_LANE_CHANGE_COOLDOWN_def)
  have second: "setTargetLane k p \<noteq> p \<longrightarrow>
        setTargetLane k' (setTargetLane k p) = setTargetLane k p
        \<and> targetLane (setTargetLane k' (setTargetLane k p)) = max 0 (min 2 k)"
    by (simp add: setTargetLane_def Let_def)
  have inv: "targetLane p \<in> {0, 1, 2} \<longrightarrow> targetLane (setTargetLane k p) \<in> {0, 1, 2}"
    using c by (simp add: setTargetLane_def Let_def)
  have cd: "isOnCooldown p = (0 < cooldownTimer p) \<longrightarrow>
        isOnCooldown (setTargetLane k p) = (0 < cooldownTimer (setTargetLane k p))
        \<and> isOnCooldown (update_player dt p) = (0 < cooldownTimer (update_player dt p))"
    using update_player_cooldown [of p dt]
    by (simp add: setTargetLane_def Let_def PLAYER_LANE_CHANGE_COOLDOWN_def)
  from c noop eff second inv cd show ?thesis
    by (intro conjI)
qed

theorem setTargetLane_contract_witness:
  "setTargetLane 1 new_player = new_player
   \<and> setTargetLane 0 new_player =
       new_player\<lparr>targetLane := 0, isOnCooldown := True, cooldownTimer := 1.0\<rparr>
   \<and> setTargetLane 0 new_player \<noteq> new_player
   \<and> setTargetLane 2 (setTargetLane 0 new_player) = setTargetLane 0 new_player
   \<and> targetLane (setTargetLane 2 (setTargetLane 0 new_player)) = 0
   \<and> targetLane (setTargetLane 7 new_player) \<in> {0, 1, 2}
   \<and> isOnCooldown (setTargetLane 0 new_player) = (0 < cooldownTimer (setTargetLane 0 new_player))
   \<and> isOnCooldown (update_player 1 (setTargetLane 0 new_player))
      = (0 < cooldownTimer (update_player 1 (setTargetLane 0 new_player)))"
proof -
  have t: "targetLane new_player = 1" and c: "\<not> isOnCooldown new_player"
    and z: "cooldownTimer new_player = 0"
    by (simp_all add: player_consts)
  have h1: "isOnCooldown new_player \<or> max 0 (min 2 1) = targetLane new_player"
    using t by simp
  have h0: "\<not> isOnCooldown new_player \<and> max 0 (min 2 0) \<noteq> targetLane new_player"
    using t c by simp
  have h7: "targetLane new_player \<in> {0, 1, 2}"
    using t by simp
  have ne: "setTargetLane 0 new_player \<noteq> new_player"
  proof
    assume "setTargetLane 0 new_player = new_player"
    then have "targetLane (setTargetLane 0 new_player) = targetLane new_player" by simp
    then show False by (simp add: setTargetLane_def t c)
  qed
  have m: "max 0 (min 2 (0::int)) = 0"
    by simp
  note noop = setTargetLane_contract [THEN conjunct2, THEN conjunct1, rule_format]
  note eff = setTargetLane_contract [THEN conjunct2, THEN conjunct2, THEN conjunct1, rule_format]
  note second = setTargetLane_contract
    [THEN conjunct2, THEN conjunct2, THEN conjunct2, THEN conjunct1, rule_format]
  note inv = setTargetLane_contract
    [THEN conjunct2, THEN conjunct2, THEN conjunct2, THEN conjunct2, THEN conjunct1, rule_format]
  note cd = setTargetLane_contract
    [THEN conjunct2, THEN conjunct2, THEN conjunct2, THEN conjunct2, THEN conjunct2, rule_format]
  have a: "setTargetLane 1 new_player = new_player"
    by (rule noop) (rule h1)
  have b: "setTargetLane 0 new_player =
       new_player\<lparr>targetLane := 0, isOnCooldown := True, cooldownTimer := 1.0\<rparr>"
    by (rule eff [of new_player 0, unfolded m, OF h0 [unfolded m]])
  have d: "setTargetLane 2 (setTargetLane 0 new_player) = setTargetLane 0 new_player
        \<and> targetLane (setTargetLane 2 (setTargetLane 0 new_player)) = 0"
    by (rule second [OF ne, of 2, unfolded m])
  have e: "targetLane (setTargetLane 7 new_player) \<in> {0, 1, 2}"
    by (rule inv) (rule h7)
  have i0: "isOnCooldown new_player = (0 < cooldownTimer new_player)"
    using c z by simp
  have f: "isOnCooldown (setTargetLane 0 new_player)
           = (0 < cooldownTimer (setTargetLane 0 new_player))"
    using cd [OF i0, of 0] by (rule conjunct1)
  have g: "isOnCooldown (update_player 1 (setTargetLane 0 new_player))
           = (0 < cooldownTimer (update_player 1 (setTargetLane 0 new_player)))"
    using cd [OF f, of 0 1] by (rule conjunct2)
  from a b ne d e f g show ?thesis
    by (intro conjI) (elim conjE, assumption)+
qed

subsection \<open>Jumps\<close>

lemmas update_defs = update_player_def lane_movement_def jump_physics_def cooldown_timer_def
  bounce_animation_def Let_def

lemma lane_movement_jump [simp]:
  "isJumping (lane_movement dt p) = isJumping p"
  "jumpTimer (lane_movement dt p) = jumpTimer p"
  "jumpDuration (lane_movement dt p) = jumpDuration p"
  "jumpStartY (lane_movement dt p) = jumpStartY p"
  "positionY (lane_movement dt p) = positionY p"
  "targetLane (lane_movement dt p) = targetLane p"
  by (simp_all add: lane_movement_def Let_def split: option.splits prod.splits)

lemma cooldown_timer_jump [simp]:
  "isJumping (cooldown_timer dt p) = isJumping p"
  "jumpTimer (cooldown_timer dt p) = jumpTimer p"
  "jumpDuration (cooldown_timer dt p) = jumpDuration p"
  "jumpStartY (cooldown_timer dt p) = jumpStartY p"
  "positionY (cooldown_timer dt p) = positionY p"
  "positionX (cooldown_timer dt p) = positionX p"
  "targetLane (cooldown_timer dt p) = targetLane p"
  "currentLane (cooldown_timer dt p) = currentLane p"
  by (simp_all add: cooldown_timer_def Let_def)

lemma bounce_animation_jump [simp]:
  "isJumping (bounce_animation dt p) = isJumping p"
  "jumpTimer (bounce_animation dt p) = jumpTimer p"
  "jumpDuration (bounce_animation dt p) = jumpDuration p"
  "jumpStartY (bounce_animation dt p) = jumpStartY p"
  "positionX (bounce_animation dt p) = positionX p"
  "targetLane (bounce_animation dt p) = targetLane p"
  "currentLane (bounce_animation dt p) = currentLane p"
  by (simp_all add: bounce_animation_def Let_def)

lemma jump_physics_fields [simp]:
  "jumpDuration (jump_physics dt p) = jumpDuration p"
  "jumpStartY (jump_physics dt p) = jumpStartY p"
  "positionX (jump_physics dt p) = positionX p"
  "targetLane (jump_physics dt p) = targetLane p"
  "currentLane (jump_physics dt p) = currentLane p"
  by (simp_all add: jump_physics_def Let_def)

lemma jump_physics_jumping:
  "isJumping (jump_physics dt p) = (isJumping p \<and> jumpTimer p + dt < jumpDuration p)"
  "isJumping p \<Longrightarrow> jumpTimer (jump_physics dt p) = jumpTimer p + dt"
  "isJumping p \<Longrightarrow> \<not> isJumping (jump_physics dt p) \<Longrightarrow> positionY (jump_physics dt p) = jumpStartY p"
  by (auto simp: jump_physics_def Let_def)

lemma update_player_fields [simp]:
  "jumpDuration (update_player dt p) = jumpDuration p"
  "jumpStartY (update_player dt p) = jumpStartY p"
  "targetLane (update_player dt p) = targetLane p"
  by (simp_all add: update_player_def)

lemma update_player_jumping:
  "isJumping (update_player dt p) = (isJumping p \<and> jumpTimer p + dt < jumpDuration p)"
  "isJumping p \<Longrightarrow> jumpTimer (update_player dt p) = jumpTimer p + dt"
  "isJumping p \<Longrightarrow> \<not> isJumping (update_player dt p) \<Longrightarrow> positionY (update_player dt p) = jumpStartY p"
  by (simp_all add: update_player_def jump_physics_jumping)

lemma player_updates_fields [simp]:
  "jumpDuration (player_updates dts p) = jumpDuration p"
  "jumpStartY (player_updates dts p) = jumpStartY p"
  by (induction dts arbitrary: p) simp_all

lemma player_updates_append:
  "player_updates (dts @ [dt]) p = update_player dt (player_updates dts p)"
  by (induction dts arbitrary: p) simp_all

lemma player_updates_not_jumping:
  "\<not> isJumping p \<Longrightarrow> \<not> isJumping (player_updates dts p)"
  by (induction dts arbitrary: p) (simp_all add: update_player_jumping)

lemma player_updates_jumping:
  "isJumping p \<Longrightarrow> jumpTimer p < jumpDuration p \<Longrightarrow> \<forall>d\<in>set dts. 0 \<le> d \<Longrightarrow>
   isJumping (player_updates dts p) = (jumpTimer p + sum_list dts < jumpDuration p)"
proof (induction dts arbitrary: p)
  case Nil
  then show ?case by simp
next
  case (Cons d dts)
  have nonneg: "0 \<le> sum_list dts"
    using Cons.prems(3) by (simp add: sum_list_nonneg)
  show ?case
  proof (cases "jumpTimer p + d < jumpDuration p")
    case True
    then have j: "isJumping (update_player d p)"
      using Cons.prems(1) by (simp add: update_player_jumping)
    have "isJumping (player_updates dts (update_player d p)) =
          (jumpTimer (update_player d p) + sum_list dts < jumpDuration (update_player d p))"
      using Cons.IH [OF j] True Cons.prems(1,3) by (simp add: update_player_jumping)
    then show ?thesis
      using Cons.prems(1) by (simp add: update_player_jumping add.assoc)
  next
    case False
    then have "\<not> isJumping (update_player d p)"
      by (simp add: update_player_jumping)
    then have "\<not> isJumping (player_updates dts (update_player d p))"
      by (rule player_updates_not_jumping)
    then show ?thesis
      using False nonneg by simp
  qed
qed

lemma player_updates_timer:
  "isJumping (player_updates dts p) \<Longrightarrow> jumpTimer (player_updates dts p) = jumpTimer p + sum_list dts"
proof (induction dts arbitrary: p)
  case Nil
  then show ?case by simp
next
  case (Cons d dts)
  have j: "isJumping (update_player d p)"
    using Cons.prems player_updates_not_jumping [of "update_player d p" dts] by auto
  then have "isJumping p"
    by (simp add: update_player_jumping)
  then show ?case
    using Cons.IH [of "update_player d p"] Cons.prems by (simp add: update_player_jumping)
qed

text \<open>
  C7. \<^verbatim>\<open>jump()\<close> changes nothing while the player is jumping. From a jumping
  state whose timer is below the jump duration (every state \<^verbatim>\<open>jump()\<close> produces
  and every later one that still jumps), after \<^verbatim>\<open>update\<close> calls with
  non-negative steps the player still jumps exactly if the accumulated timer is below the
  duration; while it jumps the timer is the accumulated sum; the jump ends in exactly the
  call in which the accumulated timer reaches or exceeds the duration, and that call leaves
  the vertical position at the base height.
\<close>

theorem jump_lifecycle:
  "(isJumping p \<longrightarrow> jump p = p)
   \<and> (isJumping p \<and> jumpTimer p < jumpDuration p \<and> (\<forall>d\<in>set dts. 0 \<le> d) \<longrightarrow>
        isJumping (player_updates dts p) = (jumpTimer p + sum_list dts < jumpDuration p))
   \<and> (isJumping (player_updates dts p) \<longrightarrow>
        jumpTimer (player_updates dts p) = jumpTimer p + sum_list dts)
   \<and> (isJumping p \<and> jumpTimer p < jumpDuration p \<and> (\<forall>d\<in>set dts. 0 \<le> d) \<and> 0 \<le> dt \<longrightarrow>
        (isJumping (player_updates dts p) \<and> \<not> isJumping (player_updates (dts @ [dt]) p))
        = (jumpTimer p + sum_list dts < jumpDuration p
           \<and> jumpDuration p \<le> jumpTimer p + sum_list dts + dt))
   \<and> (isJumping (player_updates dts p) \<and> \<not> isJumping (player_updates (dts @ [dt]) p) \<longrightarrow>
        positionY (player_updates (dts @ [dt]) p) = jumpStartY p)"
proof -
  have a: "isJumping p \<longrightarrow> jump p = p"
    by (simp add: jump_def)
  have b: "isJumping p \<and> jumpTimer p < jumpDuration p \<and> (\<forall>d\<in>set dts. 0 \<le> d) \<longrightarrow>
        isJumping (player_updates dts p) = (jumpTimer p + sum_list dts < jumpDuration p)"
    using player_updates_jumping by blast
  have c: "isJumping (player_updates dts p) \<longrightarrow>
        jumpTimer (player_updates dts p) = jumpTimer p + sum_list dts"
    using player_updates_timer by blast
  have d: "isJumping p \<and> jumpTimer p < jumpDuration p \<and> (\<forall>d\<in>set dts. 0 \<le> d) \<and> 0 \<le> dt \<longrightarrow>
        (isJumping (player_updates dts p) \<and> \<not> isJumping (player_updates (dts @ [dt]) p))
        = (jumpTimer p + sum_list dts < jumpDuration p
           \<and> jumpDuration p \<le> jumpTimer p + sum_list dts + dt)"
  proof (intro impI, elim conjE)
    assume j: "isJumping p" and t: "jumpTimer p < jumpDuration p"
      and nn: "\<forall>d\<in>set dts. 0 \<le> d" and "0 \<le> dt"
    then have nn': "\<forall>d\<in>set (dts @ [dt]). 0 \<le> d"
      by simp
    show "(isJumping (player_updates dts p) \<and> \<not> isJumping (player_updates (dts @ [dt]) p))
        = (jumpTimer p + sum_list dts < jumpDuration p
           \<and> jumpDuration p \<le> jumpTimer p + sum_list dts + dt)"
      using player_updates_jumping [OF j t nn] player_updates_jumping [OF j t nn']
      by auto
  qed
  have e: "isJumping (player_updates dts p) \<and> \<not> isJumping (player_updates (dts @ [dt]) p) \<longrightarrow>
        positionY (player_updates (dts @ [dt]) p) = jumpStartY p"
    using update_player_jumping(3) [of "player_updates dts p" dt]
    by (simp add: player_updates_append)
  from a b c d e show ?thesis
    by (intro conjI)
qed

theorem jump_lifecycle_witness:
  "jump (jump new_player) = jump new_player
   \<and> isJumping (player_updates [0.5, 0.5] (jump new_player))
   \<and> jumpTimer (player_updates [0.5, 0.5] (jump new_player)) = 1
   \<and> \<not> isJumping (player_updates ([0.5, 0.5] @ [0.5]) (jump new_player))
   \<and> positionY (player_updates ([0.5, 0.5] @ [0.5]) (jump new_player)) = 1.75"
proof -
  let ?p = "jump new_player"
  let ?dts = "[0.5, 0.5] :: real list"
  have j: "isJumping ?p" and t: "jumpTimer ?p = 0" and d: "jumpDuration ?p = 1.2"
    and y: "jumpStartY ?p = 1.75"
    by (simp_all add: jump_def player_consts)
  have nn: "\<forall>d\<in>set ?dts. (0::real) \<le> d"
    by simp
  note T = jump_lifecycle [of ?p ?dts "0.5"]
  have a: "jump ?p = ?p"
    using T j by (elim conjE) (rule mp)
  have b: "isJumping (player_updates ?dts ?p)"
    using T j t d nn by simp
  have c: "jumpTimer (player_updates ?dts ?p) = 1"
    using T b t by simp
  have e: "\<not> isJumping (player_updates (?dts @ [0.5]) ?p)"
    using T j t d nn b by simp
  have f: "positionY (player_updates (?dts @ [0.5]) ?p) = 1.75"
    using T b e y by simp
  from a b c e f show ?thesis
    by (intro conjI)
qed

subsection \<open>Collision and lane movement\<close>

lemma collision_loop_spec: "collision_loop p hs = collision_spec p hs"
  by (induction hs)
     (auto simp: collision_spec_def lane_overlap_def z_overlap_def jump_clears_def Let_def
           split: option.splits)

text \<open>
  C1. \<^verbatim>\<open>checkCollision\<close> returns true exactly if some active hazard overlaps the
  player in lane (the distance of the player's x from the lane's x is below half the lane
  width times 0.9) and in z (the player's z is within half the platform depth of the
  hazard's z) and it is not the case that the player is jumping with its y above the base
  height plus the clearance; so it returns false when there is no such hazard.
\<close>

theorem checkCollision_iff:
  "checkCollision m p = collision_spec p (lavaHazards m)
   \<and> checkCollision m p =
       (\<exists>l\<in>set (lavaHazards m). lane_overlap p l \<and> z_overlap p l
          \<and> \<not> (isJumping p \<and> positionY p > jumpStartY p + JUMP_CLEARANCE_HEIGHT))"
  by (simp add: checkCollision_def collision_loop_spec collision_spec_def jump_clears_def)

lemma one_hazard_hazards:
  "lavaHazards (one_hazard k z) =
     [\<lparr>lava_ref = 0, lane = k, lava_z = z, lava_visible = True, particleSystem = Some 0\<rparr>]"
  by (simp add: one_hazard_def spawnLava_def createLavaMesh_def getSystem_def
      createParticleSystem_def modify_system_def new_lava_manager_def new_particle_manager_def
      Let_def)

lemma lane_movement_cong:
  "positionX q = positionX p \<Longrightarrow> targetLane q = targetLane p \<Longrightarrow> currentLane q = currentLane p \<Longrightarrow>
   positionX (lane_movement dt q) = positionX (lane_movement dt p)
   \<and> currentLane (lane_movement dt q) = currentLane (lane_movement dt p)"
  by (simp add: lane_movement_def Let_def split: option.splits)

lemma update_player_lane:
  "positionX (update_player dt p) = positionX (lane_movement dt p)"
  "currentLane (update_player dt p) = currentLane (lane_movement dt p)"
  using lane_movement_cong
    [of "jump_physics dt (cooldown_timer dt (bounce_animation dt p))" p dt]
  by (simp_all add: update_player_def)

lemma lane_movement_current:
  "currentLane (lane_movement dt p) \<noteq> currentLane p \<Longrightarrow>
   positionX (lane_movement dt p) = LANES_at (currentLane (lane_movement dt p))"
  by (auto simp: lane_movement_def Let_def split: option.splits)

lemma lane_movement_overshoot:
  "LANES_at (targetLane p) = Some tx \<Longrightarrow> positionX p = Some x \<Longrightarrow> 0.01 < \<bar>tx - x\<bar> \<Longrightarrow>
   \<bar>tx - x\<bar> < \<bar>(tx - x) * 25 * dt\<bar> \<Longrightarrow>
   positionX (lane_movement dt p) = Some tx \<and> currentLane (lane_movement dt p) = currentLane p"
  by (simp add: lane_movement_def Let_def)

lemma lane_movement_snap:
  "LANES_at (targetLane p) = Some tx \<Longrightarrow> positionX p = Some tx \<Longrightarrow>
   positionX (lane_movement dt p) = Some tx \<and> currentLane (lane_movement dt p) = targetLane p"
  by (simp add: lane_movement_def Let_def)


lemma update_player_model_lane:
  "positionX (update_player_model dt p) = positionX (lane_movement dt p)"
  "currentLane (update_player_model dt p) = currentLane (lane_movement dt p)"
  "targetLane (update_player_model dt p) = targetLane p"
  using lane_movement_cong
    [of "jump_physics_model dt (cooldown_timer dt p)" p dt]
  by (simp_all add: update_player_model_def jump_physics_model_def Let_def)

lemma update_player_z: "positionZ (update_player dt p) = 2"
  by (simp add: update_player_def PLAYER_START_Z_def)

lemma start_change_fields:
  "positionX (setTargetLane 0 new_player) = Some 0"
  "currentLane (setTargetLane 0 new_player) = 1"
  "targetLane (setTargetLane 0 new_player) = 0"
  "\<not> isJumping (setTargetLane 0 new_player)"
  by (simp_all add: setTargetLane_def player_consts)

lemma LANES_at_simps: "LANES_at 0 = Some (- 2.5)" "LANES_at 1 = Some 0" "LANES_at 2 = Some 2.5"
  by (simp_all add: LANES_at_def LANES_def LANE_WIDTH_def)

lemma lane_movement_fields:
  "LANES_at (targetLane p) = Some tx \<Longrightarrow> positionX p = Some x \<Longrightarrow> 0.01 < \<bar>tx - x\<bar> \<Longrightarrow>
   \<not> \<bar>tx - x\<bar> < \<bar>(tx - x) * 25 * dt\<bar> \<Longrightarrow>
   positionX (lane_movement dt p) = Some (x + (tx - x) * 25 * dt)
   \<and> currentLane (lane_movement dt p) = currentLane p"
  by (simp add: lane_movement_def Let_def)

lemma first_step_fields:
  "positionX (update_player 0.016 (setTargetLane 0 new_player)) = Some (- 1)"
  "currentLane (update_player 0.016 (setTargetLane 0 new_player)) = 1"
  "targetLane (update_player 0.016 (setTargetLane 0 new_player)) = 0"
  "\<not> isJumping (update_player 0.016 (setTargetLane 0 new_player))"
proof -
  let ?p = "setTargetLane 0 new_player"
  have t: "LANES_at (targetLane ?p) = Some (- 2.5)"
    by (simp add: start_change_fields LANES_at_simps)
  have x: "positionX ?p = Some 0"
    by (rule start_change_fields)
  have m: "positionX (lane_movement 0.016 ?p) = Some (0 + (- 2.5 - 0) * 25 * 0.016)
           \<and> currentLane (lane_movement 0.016 ?p) = currentLane ?p"
    by (rule lane_movement_fields [OF t x]) simp_all
  show "positionX (update_player 0.016 ?p) = Some (- 1)"
    using m by (simp add: update_player_lane)
  show "currentLane (update_player 0.016 ?p) = 1"
    using m by (simp add: update_player_lane start_change_fields)
  show "targetLane (update_player 0.016 ?p) = 0"
    by (simp add: start_change_fields)
  show "\<not> isJumping (update_player 0.016 ?p)"
    by (simp add: update_player_jumping start_change_fields)
qed

lemma mid_change_fields:
  "positionX mid_change = Some (- 1.6)" "currentLane mid_change = 1" "targetLane mid_change = 0"
  "\<not> isJumping mid_change" "positionZ mid_change = 2"
proof -
  let ?p = "update_player 0.016 (setTargetLane 0 new_player)"
  have t: "LANES_at (targetLane ?p) = Some (- 2.5)"
    by (simp add: start_change_fields LANES_at_simps)
  have x: "positionX ?p = Some (- 1)"
    by (rule first_step_fields)
  have m: "positionX (lane_movement 0.016 ?p) = Some (- 1 + (- 2.5 - (- 1)) * 25 * 0.016)
           \<and> currentLane (lane_movement 0.016 ?p) = currentLane ?p"
    by (rule lane_movement_fields [OF t x]) simp_all
  show "positionX mid_change = Some (- 1.6)"
    using m by (simp add: mid_change_def update_player_lane)
  show "currentLane mid_change = 1"
    using m first_step_fields(2) by (simp add: mid_change_def update_player_lane)
  show "targetLane mid_change = 0"
    by (simp add: mid_change_def start_change_fields)
  show "\<not> isJumping mid_change"
    by (simp add: mid_change_def update_player_jumping start_change_fields)
  show "positionZ mid_change = 2"
    by (simp add: mid_change_def update_player_z)
qed

text \<open>
  C2, as stated, fails: two \<^verbatim>\<open>update\<close> calls of 16 ms after
  \<^verbatim>\<open>setTargetLane(0)\<close> the player is still in lane 1 by \<open>currentLane\<close> and
  at x = -1.6; a hazard in lane 0 at the player's z hits it, and does not hit a player in
  the same state placed at the exact x of lane 1.
\<close>

theorem exact_lane_counterexample:
  "currentLane (at_current_lane mid_change) = currentLane mid_change
   \<and> isJumping (at_current_lane mid_change) = isJumping mid_change
   \<and> positionY (at_current_lane mid_change) = positionY mid_change
   \<and> positionZ (at_current_lane mid_change) = positionZ mid_change
   \<and> positionX mid_change = Some (- 1.6)
   \<and> positionX (at_current_lane mid_change) = LANES_at (currentLane mid_change)
   \<and> checkCollision (one_hazard 0 2) mid_change
   \<and> \<not> checkCollision (one_hazard 0 2) (at_current_lane mid_change)"
  by (simp add: at_current_lane_def checkCollision_def one_hazard_hazards mid_change_fields
      LANES_at_simps LANE_WIDTH_def PLATFORM_DEPTH_def)


text \<open>
  C2, amended. The collision check reads the player's interpolated x position and not its
  lane index: two players that agree on position, jump state and base height get the same
  result whatever their \<open>currentLane\<close> and \<open>targetLane\<close>; the result is that of
  the exact lane geometry when the player's x is its current lane's x, which
  \<^verbatim>\<open>update\<close> establishes in every call that changes \<open>currentLane\<close>.
\<close>

theorem checkCollision_reads_position:
  "(positionX p = positionX q \<and> positionY p = positionY q \<and> positionZ p = positionZ q
      \<and> isJumping p = isJumping q \<and> jumpStartY p = jumpStartY q
     \<longrightarrow> checkCollision m p = checkCollision m q)
   \<and> (positionX p = LANES_at (currentLane p) \<longrightarrow>
        checkCollision m p = checkCollision m (at_current_lane p))
   \<and> (currentLane (update_player dt p) \<noteq> currentLane p \<longrightarrow>
        positionX (update_player dt p) = LANES_at (currentLane (update_player dt p)))"
proof -
  have a: "positionX p = positionX q \<and> positionY p = positionY q \<and> positionZ p = positionZ q
      \<and> isJumping p = isJumping q \<and> jumpStartY p = jumpStartY q
     \<longrightarrow> checkCollision m p = checkCollision m q"
    by (simp add: checkCollision_def collision_loop_spec collision_spec_def lane_overlap_def
        z_overlap_def jump_clears_def)
  have b: "positionX p = LANES_at (currentLane p) \<longrightarrow>
        checkCollision m p = checkCollision m (at_current_lane p)"
    by (simp add: checkCollision_def collision_loop_spec collision_spec_def lane_overlap_def
        z_overlap_def jump_clears_def at_current_lane_def)
  have c: "currentLane (update_player dt p) \<noteq> currentLane p \<longrightarrow>
        positionX (update_player dt p) = LANES_at (currentLane (update_player dt p))"
    using lane_movement_current [of dt p] by (simp add: update_player_lane)
  from a b c show ?thesis
    by (intro conjI)
qed

text \<open>
  C10. A lane-movement step that would overshoot (more than the 0.01 epsilon remains and
  the move distance exceeds it) puts \<open>positionX\<close> exactly at the target lane's x and
  leaves \<open>currentLane\<close> as it was; the next \<^verbatim>\<open>update\<close> call makes
  \<open>currentLane\<close> the target lane. So when the two lanes differed there is a state,
  between the two calls, in which \<open>positionX\<close> is the target lane's x and
  \<open>currentLane\<close> is not the target lane. Both variants of the class behave so.
\<close>

theorem overshoot_window:
  "(LANES_at (targetLane p) = Some targetX \<and> positionX p = Some x
      \<and> 0.01 < \<bar>targetX - x\<bar> \<and> \<bar>targetX - x\<bar> < \<bar>(targetX - x) * 25 * dt\<bar>
     \<longrightarrow> positionX (update_player dt p) = Some targetX
         \<and> currentLane (update_player dt p) = currentLane p
         \<and> targetLane (update_player dt p) = targetLane p
         \<and> positionX (update_player dt' (update_player dt p)) = Some targetX
         \<and> currentLane (update_player dt' (update_player dt p)) = targetLane p
         \<and> positionX (update_player_model dt p) = Some targetX
         \<and> currentLane (update_player_model dt p) = currentLane p
         \<and> targetLane (update_player_model dt p) = targetLane p
         \<and> positionX (update_player_model dt' (update_player_model dt p)) = Some targetX
         \<and> currentLane (update_player_model dt' (update_player_model dt p)) = targetLane p)
   \<and> (LANES_at (targetLane p) = Some targetX \<and> positionX p = Some x
      \<and> 0.01 < \<bar>targetX - x\<bar> \<and> \<bar>targetX - x\<bar> < \<bar>(targetX - x) * 25 * dt\<bar>
      \<and> currentLane p \<noteq> targetLane p
     \<longrightarrow> positionX (update_player dt p) = LANES_at (targetLane (update_player dt p))
         \<and> currentLane (update_player dt p) \<noteq> targetLane (update_player dt p)
         \<and> positionX (update_player_model dt p) = LANES_at (targetLane (update_player_model dt p))
         \<and> currentLane (update_player_model dt p) \<noteq> targetLane (update_player_model dt p))"
proof -
  have main: "positionX (update_player dt p) = Some targetX
         \<and> currentLane (update_player dt p) = currentLane p
         \<and> targetLane (update_player dt p) = targetLane p
         \<and> positionX (update_player dt' (update_player dt p)) = Some targetX
         \<and> currentLane (update_player dt' (update_player dt p)) = targetLane p
         \<and> positionX (update_player_model dt p) = Some targetX
         \<and> currentLane (update_player_model dt p) = currentLane p
         \<and> targetLane (update_player_model dt p) = targetLane p
         \<and> positionX (update_player_model dt' (update_player_model dt p)) = Some targetX
         \<and> currentLane (update_player_model dt' (update_player_model dt p)) = targetLane p"
    if t: "LANES_at (targetLane p) = Some targetX" and x: "positionX p = Some x"
      and far: "0.01 < \<bar>targetX - x\<bar>" and over: "\<bar>targetX - x\<bar> < \<bar>(targetX - x) * 25 * dt\<bar>"
  proof -
    note o = lane_movement_overshoot [OF t x far over]
    have x1: "positionX (update_player dt p) = Some targetX"
      and c1: "currentLane (update_player dt p) = currentLane p"
      and t1: "targetLane (update_player dt p) = targetLane p"
      using o by (simp_all add: update_player_lane)
    have y1: "positionX (update_player_model dt p) = Some targetX"
      and d1: "currentLane (update_player_model dt p) = currentLane p"
      and u1: "targetLane (update_player_model dt p) = targetLane p"
      using o by (simp_all add: update_player_model_lane)
    have t2: "LANES_at (targetLane (update_player dt p)) = Some targetX"
      using t by simp
    have u2: "LANES_at (targetLane (update_player_model dt p)) = Some targetX"
      using t u1 by simp
    note s = lane_movement_snap [OF t2 x1, of dt']
    note s' = lane_movement_snap [OF u2 y1, of dt']
    have x2: "positionX (update_player dt' (update_player dt p)) = Some targetX"
      and c2: "currentLane (update_player dt' (update_player dt p)) = targetLane p"
      using s by (simp_all add: update_player_lane)
    have y2: "positionX (update_player_model dt' (update_player_model dt p)) = Some targetX"
      and d2: "currentLane (update_player_model dt' (update_player_model dt p)) = targetLane p"
      using s' u1 by (simp_all add: update_player_model_lane)
    from x1 c1 t1 x2 c2 y1 d1 u1 y2 d2 show ?thesis
      by (intro conjI)
  qed
  have window: "positionX (update_player dt p) = LANES_at (targetLane (update_player dt p))
         \<and> currentLane (update_player dt p) \<noteq> targetLane (update_player dt p)
         \<and> positionX (update_player_model dt p) = LANES_at (targetLane (update_player_model dt p))
         \<and> currentLane (update_player_model dt p) \<noteq> targetLane (update_player_model dt p)"
    if t: "LANES_at (targetLane p) = Some targetX" and x: "positionX p = Some x"
      and far: "0.01 < \<bar>targetX - x\<bar>" and over: "\<bar>targetX - x\<bar> < \<bar>(targetX - x) * 25 * dt\<bar>"
      and ne: "currentLane p \<noteq> targetLane p"
    using main [OF t x far over] t ne by simp
  from main window show ?thesis
    by blast
qed

subsection \<open>The theorems at concrete players and hazards\<close>

lemma new_player_fields:
  "positionX new_player = Some 0" "positionZ new_player = 2" "\<not> isJumping new_player"
  "currentLane new_player = 1" "targetLane new_player = 1" "jumpStartY new_player = 1.75"
  by (simp_all add: player_consts)

lemma airborne_clears: "jump_clears (update_player 0.5 (jump new_player))"
  by (simp add: jump_clears_def JUMP_CLEARANCE_HEIGHT_def jump_def update_defs player_consts)

theorem checkCollision_iff_witness:
  "checkCollision (one_hazard 1 2) new_player
   \<and> collision_spec new_player (lavaHazards (one_hazard 1 2))
   \<and> \<not> checkCollision (one_hazard 0 2) new_player
   \<and> \<not> checkCollision (one_hazard 1 2) (update_player 0.5 (jump new_player))
   \<and> \<not> checkCollision new_lava_manager new_player"
proof -
  have s1: "collision_spec new_player (lavaHazards (one_hazard 1 2))"
    by (simp add: collision_spec_def lane_overlap_def z_overlap_def jump_clears_def
        one_hazard_hazards new_player_fields LANES_at_simps LANE_WIDTH_def PLATFORM_DEPTH_def)
  have s2: "\<not> collision_spec new_player (lavaHazards (one_hazard 0 2))"
    by (simp add: collision_spec_def lane_overlap_def z_overlap_def jump_clears_def
        one_hazard_hazards new_player_fields LANES_at_simps LANE_WIDTH_def PLATFORM_DEPTH_def)
  have s3: "\<not> collision_spec (update_player 0.5 (jump new_player)) (lavaHazards (one_hazard 1 2))"
    using airborne_clears by (simp add: collision_spec_def)
  have s4: "\<not> collision_spec new_player (lavaHazards new_lava_manager)"
    by (simp add: collision_spec_def new_lava_manager_def)
  note T = checkCollision_iff [THEN conjunct1]
  show ?thesis
    using s1 s2 s3 s4 by (simp add: T)
qed

theorem checkCollision_reads_position_witness:
  "currentLane (mid_change\<lparr>currentLane := 0\<rparr>) \<noteq> currentLane mid_change
   \<and> checkCollision (one_hazard 0 2) (mid_change\<lparr>currentLane := 0\<rparr>)
      = checkCollision (one_hazard 0 2) mid_change
   \<and> positionX new_player = LANES_at (currentLane new_player)
   \<and> checkCollision (one_hazard 1 2) new_player
      = checkCollision (one_hazard 1 2) (at_current_lane new_player)
   \<and> currentLane (update_player 0.016 (update_player 0.05 (setTargetLane 0 new_player)))
      \<noteq> currentLane (update_player 0.05 (setTargetLane 0 new_player))
   \<and> positionX (update_player 0.016 (update_player 0.05 (setTargetLane 0 new_player)))
      = LANES_at (currentLane (update_player 0.016 (update_player 0.05 (setTargetLane 0 new_player))))"
proof -
  note a = checkCollision_reads_position [THEN conjunct1, rule_format]
  note b = checkCollision_reads_position [THEN conjunct2, THEN conjunct1, rule_format]
  note c = checkCollision_reads_position [THEN conjunct2, THEN conjunct2, rule_format]
  let ?q = "update_player 0.05 (setTargetLane 0 new_player)"
  have 1: "currentLane (mid_change\<lparr>currentLane := 0\<rparr>) \<noteq> currentLane mid_change"
    by (simp add: mid_change_fields)
  have 2: "checkCollision (one_hazard 0 2) (mid_change\<lparr>currentLane := 0\<rparr>)
      = checkCollision (one_hazard 0 2) mid_change"
    by (rule a) simp
  have 3: "positionX new_player = LANES_at (currentLane new_player)"
    by (simp add: new_player_fields LANES_at_simps)
  have 4: "checkCollision (one_hazard 1 2) new_player
      = checkCollision (one_hazard 1 2) (at_current_lane new_player)"
    by (rule b) (rule 3)
  have q: "currentLane ?q = 1" "positionX ?q = Some (- 2.5)"
    using lane_movement_overshoot [of "setTargetLane 0 new_player" "- 2.5" 0 "0.05"]
    by (simp_all add: update_player_lane start_change_fields LANES_at_simps)
  have 5: "currentLane (update_player 0.016 ?q) \<noteq> currentLane ?q"
    using lane_movement_snap [of ?q "- 2.5" "0.016"] q
    by (simp add: update_player_lane start_change_fields LANES_at_simps)
  have 6: "positionX (update_player 0.016 ?q) = LANES_at (currentLane (update_player 0.016 ?q))"
    by (rule c) (rule 5)
  from 1 2 3 4 5 6 show ?thesis
    by (intro conjI)
qed

theorem overshoot_window_witness:
  "positionX (update_player 0.05 (setTargetLane 0 new_player)) = Some (- 2.5)
   \<and> currentLane (update_player 0.05 (setTargetLane 0 new_player)) = 1
   \<and> targetLane (update_player 0.05 (setTargetLane 0 new_player)) = 0
   \<and> currentLane (update_player 0.016 (update_player 0.05 (setTargetLane 0 new_player))) = 0
   \<and> positionX (update_player 0.05 (setTargetLane 0 new_player))
      = LANES_at (targetLane (update_player 0.05 (setTargetLane 0 new_player)))
   \<and> currentLane (update_player 0.05 (setTargetLane 0 new_player))
      \<noteq> targetLane (update_player 0.05 (setTargetLane 0 new_player))
   \<and> positionX (update_player_model 0.05 (setTargetLane 0 new_player)) = Some (- 2.5)
   \<and> currentLane (update_player_model 0.05 (setTargetLane 0 new_player)) = 1
   \<and> currentLane (update_player_model 0.016 (update_player_model 0.05 (setTargetLane 0 new_player))) = 0"
proof -
  let ?p = "setTargetLane 0 new_player"
  have h: "LANES_at (targetLane ?p) = Some (- 2.5) \<and> positionX ?p = Some 0
      \<and> 0.01 < \<bar>- 2.5 - (0::real)\<bar> \<and> \<bar>- 2.5 - (0::real)\<bar> < \<bar>(- 2.5 - 0) * 25 * 0.05\<bar>"
    by (simp add: start_change_fields LANES_at_simps)
  have h': "LANES_at (targetLane ?p) = Some (- 2.5) \<and> positionX ?p = Some 0
      \<and> 0.01 < \<bar>- 2.5 - (0::real)\<bar> \<and> \<bar>- 2.5 - (0::real)\<bar> < \<bar>(- 2.5 - 0) * 25 * 0.05\<bar>
      \<and> currentLane ?p \<noteq> targetLane ?p"
    using h by (simp add: start_change_fields)
  note A = overshoot_window [THEN conjunct1, rule_format, OF h, of "0.016"]
  note B = overshoot_window [THEN conjunct2, rule_format, OF h']
  show ?thesis
    using A B by (simp add: start_change_fields)
qed

section \<open>Properties of the hazards\<close>

subsection \<open>The spawn interval\<close>

lemma modify_system_lists [simp]:
  "particleSystems (modify_system r f pm) = particleSystems pm"
  "system_pool (modify_system r f pm) = system_pool pm"
  "next_ref (modify_system r f pm) = next_ref pm"
  by (simp_all add: modify_system_def split: option.splits)

lemma move_despawn_at_spawn [simp]:
  "spawnInterval (move_despawn_at i mz pz m) = spawnInterval m"
  "spawnTimer (move_despawn_at i mz pz m) = spawnTimer m"
  by (simp_all add: move_despawn_at_def Let_def)

lemma move_despawn_spawn [simp]:
  "spawnInterval (move_despawn n mz pz m) = spawnInterval m"
  "spawnTimer (move_despawn n mz pz m) = spawnTimer m"
  by (induction n arbitrary: m) simp_all

lemma spawnLava_spawn [simp]:
  "spawnInterval (spawnLava z r m) = spawnInterval m"
  "spawnTimer (spawnLava z r m) = spawnTimer m"
  by (simp_all add: spawnLava_def createLavaMesh_def Let_def split: prod.splits)

lemma lava_update_interval:
  "spawnInterval (lava_update dt z v r m) =
     (if spawnInterval m \<le> spawnTimer m + dt \<and> MIN_SPAWN_INTERVAL < spawnInterval m
      then max MIN_SPAWN_INTERVAL (spawnInterval m - SPAWN_INTERVAL_DECREMENT)
      else spawnInterval m)"
  by (simp add: lava_update_def Let_def)

lemma lava_update_le: "spawnInterval (lava_update dt z v r m) \<le> spawnInterval m"
  by (simp add: lava_update_interval SPAWN_INTERVAL_DECREMENT_def)

lemma lava_update_floor:
  "MIN_SPAWN_INTERVAL \<le> spawnInterval m \<Longrightarrow> MIN_SPAWN_INTERVAL \<le> spawnInterval (lava_update dt z v r m)"
  by (simp add: lava_update_interval)

lemma lava_updates_le: "spawnInterval (lava_updates ts m) \<le> spawnInterval m"
proof (induction ts arbitrary: m)
  case Nil
  show ?case by simp
next
  case (Cons t ts)
  obtain dt z v r where t: "t = (dt, z, v, r)"
    by (cases t)
  have "spawnInterval (lava_updates ts (lava_update dt z v r m)) \<le> spawnInterval (lava_update dt z v r m)"
    by (rule Cons.IH)
  also have "\<dots> \<le> spawnInterval m"
    by (rule lava_update_le)
  finally show ?case
    by (simp add: t)
qed

lemma lava_updates_floor:
  "MIN_SPAWN_INTERVAL \<le> spawnInterval m \<Longrightarrow> MIN_SPAWN_INTERVAL \<le> spawnInterval (lava_updates ts m)"
proof (induction ts arbitrary: m)
  case Nil
  then show ?case by simp
next
  case (Cons t ts)
  obtain dt z v r where t: "t = (dt, z, v, r)"
    by (cases t)
  show ?case
    using Cons.IH [OF lava_update_floor [OF Cons.prems]] by (simp add: t)
qed

lemma lava_updates_append:
  "lava_updates (ts @ ts') m = lava_updates ts' (lava_updates ts m)"
  by (induction ts arbitrary: m) auto

lemma lava_reset_interval: "spawnInterval (lava_reset m) = INITIAL_SPAWN_INTERVAL"
  by (simp add: lava_reset_def Let_def)

text \<open>
  C8. One \<^verbatim>\<open>LavaManager.update\<close> never raises the spawn interval and keeps it at
  or above the floor; a call that spawns lowers it by the decrement, clamped at the floor,
  and a call that does not spawn leaves it; so along every sequence of calls after a
  \<^verbatim>\<open>reset\<close> the interval is non-increasing and stays between the floor and the
  initial interval.
\<close>

theorem spawn_interval_ramp:
  "spawnInterval (lava_update dt z v r m) \<le> spawnInterval m
   \<and> (MIN_SPAWN_INTERVAL \<le> spawnInterval m \<longrightarrow>
        MIN_SPAWN_INTERVAL \<le> spawnInterval (lava_update dt z v r m))
   \<and> (MIN_SPAWN_INTERVAL \<le> spawnInterval m \<and> spawnInterval m \<le> spawnTimer m + dt \<longrightarrow>
        spawnInterval (lava_update dt z v r m)
          = max MIN_SPAWN_INTERVAL (spawnInterval m - SPAWN_INTERVAL_DECREMENT))
   \<and> (spawnTimer m + dt < spawnInterval m \<longrightarrow>
        spawnInterval (lava_update dt z v r m) = spawnInterval m)
   \<and> spawnInterval (lava_updates (ts @ ts') (lava_reset m))
        \<le> spawnInterval (lava_updates ts (lava_reset m))
   \<and> spawnInterval (lava_updates ts (lava_reset m)) \<le> INITIAL_SPAWN_INTERVAL
   \<and> MIN_SPAWN_INTERVAL \<le> spawnInterval (lava_updates ts (lava_reset m))"
proof -
  have a: "spawnInterval (lava_update dt z v r m) \<le> spawnInterval m"
    by (rule lava_update_le)
  have b: "MIN_SPAWN_INTERVAL \<le> spawnInterval m \<longrightarrow>
        MIN_SPAWN_INTERVAL \<le> spawnInterval (lava_update dt z v r m)"
    using lava_update_floor by blast
  have c: "MIN_SPAWN_INTERVAL \<le> spawnInterval m \<and> spawnInterval m \<le> spawnTimer m + dt \<longrightarrow>
        spawnInterval (lava_update dt z v r m)
          = max MIN_SPAWN_INTERVAL (spawnInterval m - SPAWN_INTERVAL_DECREMENT)"
    by (simp add: lava_update_interval SPAWN_INTERVAL_DECREMENT_def)
  have d: "spawnTimer m + dt < spawnInterval m \<longrightarrow>
        spawnInterval (lava_update dt z v r m) = spawnInterval m"
    by (simp add: lava_update_interval)
  have e: "spawnInterval (lava_updates (ts @ ts') (lava_reset m))
        \<le> spawnInterval (lava_updates ts (lava_reset m))"
    by (simp add: lava_updates_append lava_updates_le)
  have f: "spawnInterval (lava_updates ts (lava_reset m)) \<le> INITIAL_SPAWN_INTERVAL"
    using lava_updates_le [of ts "lava_reset m"] by (simp add: lava_reset_interval)
  have g: "MIN_SPAWN_INTERVAL \<le> spawnInterval (lava_updates ts (lava_reset m))"
    by (rule lava_updates_floor)
       (simp add: lava_reset_interval INITIAL_SPAWN_INTERVAL_def MIN_SPAWN_INTERVAL_def)
  from a b c d e f g show ?thesis
    by (intro conjI)
qed

lemma lava_reset_spawn:
  "spawnInterval (lava_reset m) = 4" "spawnTimer (lava_reset m) = 3"
  by (simp_all add: lava_reset_def Let_def INITIAL_SPAWN_INTERVAL_def)

theorem spawn_interval_ramp_witness:
  "MIN_SPAWN_INTERVAL \<le> spawnInterval (lava_update 1 2 7 0.5 (lava_reset new_lava_manager))
   \<and> spawnInterval (lava_update 1 2 7 0.5 (lava_reset new_lava_manager)) = 3.75
   \<and> spawnInterval (lava_update 0.5 2 7 0.5 (lava_reset new_lava_manager)) = 4"
proof -
  let ?m = "lava_reset new_lava_manager"
  note b = spawn_interval_ramp [THEN conjunct2, THEN conjunct1, rule_format]
  note c = spawn_interval_ramp [THEN conjunct2, THEN conjunct2, THEN conjunct1, rule_format]
  note d = spawn_interval_ramp
    [THEN conjunct2, THEN conjunct2, THEN conjunct2, THEN conjunct1, rule_format]
  have fl: "MIN_SPAWN_INTERVAL \<le> spawnInterval ?m"
    by (simp add: lava_reset_spawn MIN_SPAWN_INTERVAL_def)
  have due: "MIN_SPAWN_INTERVAL \<le> spawnInterval ?m \<and> spawnInterval ?m \<le> spawnTimer ?m + 1"
    using fl by (simp add: lava_reset_spawn)
  have early: "spawnTimer ?m + 0.5 < spawnInterval ?m"
    by (simp add: lava_reset_spawn)
  have 1: "MIN_SPAWN_INTERVAL \<le> spawnInterval (lava_update 1 2 7 0.5 ?m)"
    by (rule b) (rule fl)
  have 2: "spawnInterval (lava_update 1 2 7 0.5 ?m) = 3.75"
    using c [of ?m 1 2 7 "0.5", OF due]
    by (simp add: lava_reset_spawn MIN_SPAWN_INTERVAL_def SPAWN_INTERVAL_DECREMENT_def)
  have 3: "spawnInterval (lava_update 0.5 2 7 0.5 ?m) = 4"
    using d [of ?m "0.5" 2 7 "0.5", OF early] by (simp add: lava_reset_spawn)
  from 1 2 3 show ?thesis
    by (intro conjI)
qed

section \<open>Properties of the session\<close>

subsection \<open>The score\<close>

lemma stopGameLoop_fields [simp]:
  "score (stopGameLoop g) = score g"
  "gameOver (stopGameLoop g) = gameOver g"
  "\<not> running (stopGameLoop g)"
  "lavaManager (stopGameLoop g) = lavaManager g"
  "player (stopGameLoop g) = player g"
  "currentSpeed (stopGameLoop g) = currentSpeed g"
  by (simp_all add: stopGameLoop_def Let_def split: option.splits)

lemma game_advance_fields [simp]:
  "score (game_advance fr g) = score g + frame_delta fr * SCORE_RATE"
  "running (game_advance fr g) = running g"
  "gameOver (game_advance fr g) = gameOver g"
  by (simp_all add: game_advance_def Let_def)

lemma game_update_idle:
  "\<not> running g \<or> gameOver g \<Longrightarrow>
   game_update fr g = stopGameLoop (g\<lparr>animationId := Some (frame_handle fr)\<rparr>)"
  by (auto simp: game_update_def Let_def)

lemma game_update_live:
  "running g \<Longrightarrow> \<not> gameOver g \<Longrightarrow>
   game_update fr g =
     (if frame_hit fr g
      then stopGameLoop
             ((game_advance fr (g\<lparr>animationId := Some (frame_handle fr)\<rparr>))
                \<lparr>gameOver := True, running := False\<rparr>)
      else game_advance fr (g\<lparr>animationId := Some (frame_handle fr)\<rparr>))"
  by (simp add: game_update_def frame_hit_def Let_def)

lemma game_update_score_live:
  "running g \<Longrightarrow> \<not> gameOver g \<Longrightarrow>
   score (game_update fr g) = score g + frame_delta fr * SCORE_RATE"
  by (simp add: game_update_live)

lemma game_update_over:
  "gameOver g \<Longrightarrow> score (game_update fr g) = score g \<and> gameOver (game_update fr g)"
  by (simp add: game_update_idle)

lemma game_update_gameOver:
  "gameOver (game_update fr g) = (gameOver g \<or> (running g \<and> frame_hit fr g))"
  by (cases "running g \<and> \<not> gameOver g") (auto simp: game_update_live game_update_idle)

lemma game_update_running:
  "running (game_update fr g) = (running g \<and> \<not> gameOver g \<and> \<not> frame_hit fr g)"
  by (cases "running g \<and> \<not> gameOver g") (auto simp: game_update_live game_update_idle)

lemma game_updates_over:
  "gameOver g \<Longrightarrow> score (game_updates frs g) = score g \<and> gameOver (game_updates frs g)"
  by (induction frs arbitrary: g) (simp_all add: game_update_over)

lemma game_updates_not_running:
  "\<not> isRunning g \<Longrightarrow> \<not> isRunning (game_updates frs g)"
  by (induction frs arbitrary: g)
     (auto simp: isRunning_def game_update_running game_update_gameOver)

lemma game_updates_score:
  "isRunning (game_updates frs g) \<Longrightarrow>
   score (game_updates frs g) = score g + sum_list (map frame_delta frs) * SCORE_RATE"
proof (induction frs arbitrary: g)
  case Nil
  show ?case by simp
next
  case (Cons fr frs)
  have r1: "isRunning (game_update fr g)"
    using Cons.prems game_updates_not_running [of "game_update fr g" frs] by auto
  then have r0: "running g" "\<not> gameOver g"
    by (auto simp: isRunning_def game_update_running)
  have "score (game_updates frs (game_update fr g))
        = score (game_update fr g) + sum_list (map frame_delta frs) * SCORE_RATE"
    using Cons.IH [of "game_update fr g"] Cons.prems by simp
  then show ?case
    by (simp add: game_update_score_live r0 algebra_simps)
qed

lemma sum_list_const:
  "\<forall>x\<in>set xs. f x = (c::real) \<Longrightarrow> sum_list (map f xs) = real (length xs) * c"
  by (induction xs) (simp_all add: algebra_simps)


lemmas game_defs = game_update_def game_advance_def game_start_frame_def resetGameState_def
  stopGameLoop_def new_game_def checkCollision_def SCORE_RATE_def INITIAL_GAME_SPEED_def
  MAX_GAME_SPEED_def GAME_SPEED_INCREASE_RATE_def

lemmas lava_defs = lava_update_def lava_reset_def spawnLava_def createLavaMesh_def
  move_despawn_at_def new_lava_manager_def INITIAL_SPAWN_INTERVAL_def MIN_SPAWN_INTERVAL_def
  SPAWN_INTERVAL_DECREMENT_def GAME_AREA_LENGTH_def PLATFORM_DEPTH_def

lemmas particle_defs = getSystem_def createParticleSystem_def returnSystem_def
  modify_system_def particle_update_def new_particle_manager_def

lemma idle_handlers:
  "game_over w \<Longrightarrow> handleKeyDown key w = w"
  "game_over w \<Longrightarrow> handlePoseUpdate nx ny w = w"
  by (auto simp: game_over_def handleKeyDown_def handlePoseUpdate_def isRunning_def
      split: option.splits)

lemma step_frozen:
  assumes "game_over w" and "\<not> starts_session e"
  shows "world_score (step e w) = world_score w \<and> game_over (step e w)"
proof (cases e)
  case StartClick
  with assms show ?thesis by simp
next
  case (StartFrame fr)
  with assms show ?thesis by simp
next
  case (Frame fr)
  with assms(1) show ?thesis
    by (auto simp: game_over_def world_score_def on_game_def game_update_over split: option.splits)
next
  case (KeyDown key)
  with assms(1) show ?thesis by (simp add: idle_handlers)
next
  case (PoseUpdate nx ny)
  with assms(1) show ?thesis by (simp add: idle_handlers)
next
  case RestartClick
  with assms(1) show ?thesis
    by (auto simp: game_over_def world_score_def on_game_def game_stop_def split: option.splits)
next
  case RestartTimeout
  with assms(1) show ?thesis
    by (auto simp: game_over_def world_score_def on_game_def game_start_def resetGameSession_def
        split: option.splits)next
  case SpriteLoaded
  with assms(1) show ?thesis
    by (auto simp: game_over_def world_score_def on_game_def split: option.splits)
qed

text \<open>
  C9. A frame of a game that is running and not over, with a positive delta, raises the
  score by exactly the delta times the score rate. Once the game is over no
  \<^verbatim>\<open>_update\<close> and no event of the page but the start of a new session changes the
  score, and the game stays over. Frames after which the game is still running (none met a
  collision) have added their total time times the rate; five of one second each have
  added five times the rate.
\<close>

theorem score_progress:
  "(isRunning g \<and> 0 < frame_delta fr \<longrightarrow>
      score (game_update fr g) = score g + frame_delta fr * SCORE_RATE
      \<and> score g < score (game_update fr g))
   \<and> (gameOver g \<longrightarrow> score (game_updates frs g) = score g \<and> gameOver (game_updates frs g))
   \<and> (game_over w \<and> \<not> starts_session e \<longrightarrow>
        world_score (step e w) = world_score w \<and> game_over (step e w))
   \<and> (isRunning (game_updates frs g) \<longrightarrow>
        score (game_updates frs g) = score g + sum_list (map frame_delta frs) * SCORE_RATE)
   \<and> (isRunning (game_updates frs g) \<and> length frs = 5 \<and> (\<forall>fr\<in>set frs. frame_delta fr = 1.0)
        \<longrightarrow> score (game_updates frs g) = score g + 5 * SCORE_RATE)"
proof -
  have a: "isRunning g \<and> 0 < frame_delta fr \<longrightarrow>
      score (game_update fr g) = score g + frame_delta fr * SCORE_RATE
      \<and> score g < score (game_update fr g)"
    by (simp add: isRunning_def game_update_score_live SCORE_RATE_def)
  have b: "gameOver g \<longrightarrow> score (game_updates frs g) = score g \<and> gameOver (game_updates frs g)"
    using game_updates_over by blast
  have c: "game_over w \<and> \<not> starts_session e \<longrightarrow>
        world_score (step e w) = world_score w \<and> game_over (step e w)"
    using step_frozen by blast
  have d: "isRunning (game_updates frs g) \<longrightarrow>
        score (game_updates frs g) = score g + sum_list (map frame_delta frs) * SCORE_RATE"
    using game_updates_score by blast
  have e: "isRunning (game_updates frs g) \<and> length frs = 5 \<and> (\<forall>fr\<in>set frs. frame_delta fr = 1.0)
        \<longrightarrow> score (game_updates frs g) = score g + 5 * SCORE_RATE"
  proof (intro impI, elim conjE)
    assume r: "isRunning (game_updates frs g)" and l: "length frs = 5"
      and o: "\<forall>fr\<in>set frs. frame_delta fr = 1.0"
    have "sum_list (map frame_delta frs) = real (length frs) * 1.0"
      using o by (rule sum_list_const)
    then show "score (game_updates frs g) = score g + 5 * SCORE_RATE"
      using game_updates_score [OF r] l by simp
  qed
  from a b c d e show ?thesis
    by (intro conjI)
qed

lemma five_seconds_running: "isRunning (game_updates five_seconds fresh_session)"
  by (simp add: isRunning_def five_seconds_def fresh_session_def game_defs lava_defs
      particle_defs update_defs player_consts)


lemma fresh_session_running: "isRunning fresh_session" "score fresh_session = 0"
  by (simp_all add: isRunning_def fresh_session_def game_defs lava_defs
      particle_defs update_defs player_consts)

lemma game_stop_over: "gameOver (game_stop g)" "score (game_stop g) = score g"
  by (simp_all add: game_stop_def)

theorem score_progress_witness:
  "score (game_update \<lparr>frame_handle = 2, frame_delta = 1, frame_random = 0.5\<rparr> fresh_session) = 10
   \<and> score fresh_session < score (game_update \<lparr>frame_handle = 2, frame_delta = 1, frame_random = 0.5\<rparr> fresh_session)
   \<and> score (game_updates five_seconds (game_stop fresh_session)) = 0
   \<and> world_score (step (Frame \<lparr>frame_handle = 2, frame_delta = 1, frame_random = 0.5\<rparr>)
         \<lparr>the_game = Some (game_stop fresh_session), restingShoulderY = None,
          poseJumpCooldownTimer = 0\<rparr>) = Some 0
   \<and> isRunning (game_updates five_seconds fresh_session)
   \<and> score (game_updates five_seconds fresh_session) = 5 * SCORE_RATE"
proof -
  let ?fr = "\<lparr>frame_handle = 2, frame_delta = 1, frame_random = 0.5\<rparr>"
  let ?w = "\<lparr>the_game = Some (game_stop fresh_session), restingShoulderY = None,
          poseJumpCooldownTimer = 0\<rparr>"
  note a = score_progress [THEN conjunct1, rule_format]
  note b = score_progress [THEN conjunct2, THEN conjunct1, rule_format]
  note c = score_progress [THEN conjunct2, THEN conjunct2, THEN conjunct1, rule_format]
  note e = score_progress
    [THEN conjunct2, THEN conjunct2, THEN conjunct2, THEN conjunct2, rule_format]
  have h1: "isRunning fresh_session \<and> 0 < frame_delta ?fr"
    by (simp add: fresh_session_running)
  have 1: "score (game_update ?fr fresh_session) = 10
           \<and> score fresh_session < score (game_update ?fr fresh_session)"
    using a [OF h1] by (simp add: fresh_session_running SCORE_RATE_def)
  have 2: "score (game_updates five_seconds (game_stop fresh_session)) = 0"
    using b [of "game_stop fresh_session" five_seconds]
    by (simp add: game_stop_over fresh_session_running)
  have h3: "game_over ?w \<and> \<not> starts_session (Frame ?fr)"
    by (simp add: game_over_def game_stop_over)
  have 3: "world_score (step (Frame ?fr) ?w) = Some 0"
    using c [OF h3] by (simp add: world_score_def game_stop_over fresh_session_running)
  have h5: "isRunning (game_updates five_seconds fresh_session) \<and> length five_seconds = 5
            \<and> (\<forall>fr\<in>set five_seconds. frame_delta fr = 1.0)"
    by (simp add: five_seconds_running) (simp add: five_seconds_def)
  have 5: "score (game_updates five_seconds fresh_session) = 5 * SCORE_RATE"
    using e [OF h5] by (simp add: fresh_session_running)
  from 1 2 3 five_seconds_running 5 show ?thesis
    by (intro conjI) simp_all
qed

subsection \<open>The end of the game\<close>

lemma step_gameOver_within:
  assumes "\<not> starts_session e" and "\<not> game_over w" and "game_over (step e w)"
  shows "e = RestartClick
         \<or> (\<exists>fr g. e = Frame fr \<and> the_game w = Some g \<and> running g \<and> frame_hit fr g)"
proof (cases e)
  case StartClick
  with assms show ?thesis by simp
next
  case (StartFrame fr)
  with assms show ?thesis by simp
next
  case (Frame fr)
  with assms(2,3) show ?thesis
    by (auto simp: game_over_def on_game_def game_update_gameOver split: option.splits)
next
  case (KeyDown key)
  with assms(2,3) show ?thesis
    by (auto simp: game_over_def handleKeyDown_def split: option.splits if_splits)
next
  case (PoseUpdate nx ny)
  with assms(2,3) show ?thesis
    by (auto simp: game_over_def handlePoseUpdate_def Let_def split: option.splits if_splits)
next
  case RestartClick
  then show ?thesis by simp
next
  case RestartTimeout
  with assms(2,3) show ?thesis
    by (auto simp: game_over_def on_game_def game_start_def resetGameSession_def
        split: option.splits)next
  case SpriteLoaded
  with assms(2,3) show ?thesis
    by (auto simp: game_over_def on_game_def split: option.splits)
qed

text \<open>
  C5, amended. Within a session (no event that starts one) the game goes from not over to
  over only when \<^verbatim>\<open>stop()\<close> is called or when the collision check of a frame of
  a running game reports a hit, and a game that is over stays over; \<^verbatim>\<open>_update\<close>
  sets \<open>gameOver\<close> exactly on a hit, \<^verbatim>\<open>stop()\<close> sets it always, and only the
  reset of a new session clears it.
\<close>

theorem gameOver_transitions:
  "(\<not> starts_session e \<and> \<not> game_over w \<and> game_over (step e w) \<longrightarrow>
      e = RestartClick
      \<or> (\<exists>fr g. e = Frame fr \<and> the_game w = Some g \<and> running g \<and> frame_hit fr g))
   \<and> (\<not> starts_session e \<and> game_over w \<longrightarrow> game_over (step e w))
   \<and> gameOver (game_update fr g) = (gameOver g \<or> (running g \<and> frame_hit fr g))
   \<and> gameOver (game_stop g)
   \<and> \<not> gameOver (resetGameState g)"
proof -
  have a: "\<not> starts_session e \<and> \<not> game_over w \<and> game_over (step e w) \<longrightarrow>
      e = RestartClick
      \<or> (\<exists>fr g. e = Frame fr \<and> the_game w = Some g \<and> running g \<and> frame_hit fr g)"
    using step_gameOver_within by blast
  have b: "\<not> starts_session e \<and> game_over w \<longrightarrow> game_over (step e w)"
    using step_frozen by blast
  have c: "gameOver (game_update fr g) = (gameOver g \<or> (running g \<and> frame_hit fr g))"
    by (rule game_update_gameOver)
  have d: "gameOver (game_stop g)"
    by (rule game_stop_over)
  have e: "\<not> gameOver (resetGameState g)"
    by (simp add: resetGameState_def)
  from a b c d e show ?thesis
    by (intro conjI)
qed


lemma playing_eq:
  "playing = \<lparr>the_game = Some fresh_session, restingShoulderY = None, poseJumpCooldownTimer = 0\<rparr>"
  by (simp add: playing_def initial_world_def resetGameSession_def on_game_def game_start_def
      stopGameLoop_def new_game_def fresh_session_def)

lemma fresh_session_no_hazard: "lavaHazards (lavaManager fresh_session) = []"
  by (simp add: fresh_session_def game_defs lava_defs particle_defs update_defs
      player_consts)

text \<open>
  C5, as stated, fails: \<^verbatim>\<open>stop()\<close> on a session that has just started, with no
  hazard in it and no collision, sets \<open>gameOver\<close>.
\<close>

theorem stop_sets_gameOver_counterexample:
  "isRunning fresh_session
   \<and> \<not> gameOver fresh_session
   \<and> lavaHazards (lavaManager fresh_session) = []
   \<and> \<not> checkCollision (lavaManager (game_stop fresh_session)) (player (game_stop fresh_session))
   \<and> gameOver (game_stop fresh_session)
   \<and> \<not> game_over playing
   \<and> game_over (step RestartClick playing)"
  using fresh_session_running(1)
  by (simp add: isRunning_def fresh_session_no_hazard game_stop_over playing_eq game_over_def
      on_game_def checkCollision_def game_stop_def)

lemma long_frame_over: "gameOver (game_update long_frame fresh_session)"
  by (simp add: long_frame_def fresh_session_def game_defs lava_defs particle_defs update_defs
      player_consts)

theorem gameOver_transitions_witness:
  "\<not> game_over playing
   \<and> game_over (step (Frame long_frame) playing)
   \<and> frame_hit long_frame fresh_session
   \<and> game_over (step RestartClick playing)
   \<and> game_over (step (KeyDown ''a'') (step RestartClick playing))"
proof -
  note a = gameOver_transitions [THEN conjunct1, rule_format]
  note b = gameOver_transitions [THEN conjunct2, THEN conjunct1, rule_format]
  have 1: "\<not> game_over playing"
    using fresh_session_running(1) by (simp add: playing_eq game_over_def isRunning_def)
  have 2: "game_over (step (Frame long_frame) playing)"
    by (simp add: playing_eq game_over_def on_game_def long_frame_over)
  have h: "\<not> starts_session (Frame long_frame) \<and> \<not> game_over playing
           \<and> game_over (step (Frame long_frame) playing)"
    using 1 2 by simp
  have 3: "frame_hit long_frame fresh_session"
    using a [OF h] by (simp add: playing_eq)
  have 4: "game_over (step RestartClick playing)"
    by (simp add: playing_eq game_over_def on_game_def game_stop_over)
  have h5: "\<not> starts_session (KeyDown ''a'') \<and> game_over (step RestartClick playing)"
    using 4 by simp
  have 5: "game_over (step (KeyDown ''a'') (step RestartClick playing))"
    by (rule b [OF h5])
  from 1 2 3 4 5 show ?thesis
    by (intro conjI)
qed

section \<open>Properties of the pose input\<close>

lemma on_game_pose [simp]:
  "poseJumpCooldownTimer (on_game f w) = poseJumpCooldownTimer w"
  "restingShoulderY (on_game f w) = restingShoulderY w"
  by (simp_all add: on_game_def split: option.splits)

lemma frame_keeps_timer: "poseJumpCooldownTimer (step (Frame fr) w) = poseJumpCooldownTimer w"
  by simp

lemma frames_keep_timer:
  "poseJumpCooldownTimer (steps (map Frame frs) w) = poseJumpCooldownTimer w"
  by (induction frs arbitrary: w) simp_all

lemma key_keeps_timer: "poseJumpCooldownTimer (handleKeyDown key w) = poseJumpCooldownTimer w"
  by (simp add: handleKeyDown_def split: option.splits)

lemma pose_idle: "\<not> world_running w \<Longrightarrow> handlePoseUpdate nx ny w = w"
  by (cases "the_game w") (simp_all add: world_running_def handlePoseUpdate_def)

lemma pose_timer:
  "world_running w \<Longrightarrow>
   poseJumpCooldownTimer (handlePoseUpdate nx ny w) =
     (let timer1 = (if poseJumpCooldownTimer w > 0 then poseJumpCooldownTimer w - 1 / 60
                    else poseJumpCooldownTimer w);
          resting1 = (if restingShoulderY w = None \<and> ny > 0 \<and> ny < 1 then Some ny
                      else restingShoulderY w)
      in case resting1 of
           Some resting \<Rightarrow>
             if timer1 \<le> 0 \<and> resting - ny > JUMP_DETECTION_THRESHOLD then POSE_JUMP_COOLDOWN
             else timer1
         | None \<Rightarrow> timer1)"
proof -
  assume "world_running w"
  then obtain g where g: "the_game w = Some g" "isRunning g"
    by (auto simp: world_running_def split: option.splits)
  show ?thesis
    by (simp add: handlePoseUpdate_def g Let_def split: option.splits)
qed

lemma pose_decrement:
  "world_running w \<Longrightarrow> 1 / 60 < poseJumpCooldownTimer w \<Longrightarrow>
   poseJumpCooldownTimer (handlePoseUpdate nx ny w) = poseJumpCooldownTimer w - 1 / 60"
  by (simp add: pose_timer Let_def split: option.splits)

lemma pose_decrement_or_start:
  "world_running w \<Longrightarrow> 0 < poseJumpCooldownTimer w \<Longrightarrow>
   poseJumpCooldownTimer (handlePoseUpdate nx ny w) = poseJumpCooldownTimer w - 1 / 60
   \<or> poseJumpCooldownTimer (handlePoseUpdate nx ny w) = POSE_JUMP_COOLDOWN"
  by (simp add: pose_timer Let_def split: option.splits)

lemma timer_changes:
  assumes "poseJumpCooldownTimer (step e w) \<noteq> poseJumpCooldownTimer w"
  shows "is_pose e \<or> e = StartClick \<or> e = RestartTimeout"
  using assms by (cases e) (simp_all add: key_keeps_timer)

text \<open>
  C3, amended. The pose-jump cooldown timer is decremented, by a fixed 1/60, only when a
  pose sample is processed while the game is running: a frame, and any number of frames,
  leaves it as it is; a sample that finds it above 1/60 lowers it by 1/60, one that finds
  it positive lowers it by 1/60 or, if that ends the cooldown and a jump is detected,
  starts it again; a sample that comes while the game is not running changes nothing;
  and no event changes it but a sample and the reset of the session variables.
\<close>

theorem pose_cooldown_by_samples:
  "poseJumpCooldownTimer (step (Frame fr) w) = poseJumpCooldownTimer w
   \<and> poseJumpCooldownTimer (steps (map Frame frs) w) = poseJumpCooldownTimer w
   \<and> (world_running w \<and> 1 / 60 < poseJumpCooldownTimer w \<longrightarrow>
        poseJumpCooldownTimer (step (PoseUpdate nx ny) w) = poseJumpCooldownTimer w - 1 / 60)
   \<and> (world_running w \<and> 0 < poseJumpCooldownTimer w \<longrightarrow>
        poseJumpCooldownTimer (step (PoseUpdate nx ny) w) = poseJumpCooldownTimer w - 1 / 60
        \<or> poseJumpCooldownTimer (step (PoseUpdate nx ny) w) = POSE_JUMP_COOLDOWN)
   \<and> (\<not> world_running w \<longrightarrow> step (PoseUpdate nx ny) w = w)
   \<and> (poseJumpCooldownTimer (step e w) \<noteq> poseJumpCooldownTimer w \<longrightarrow>
        is_pose e \<or> e = StartClick \<or> e = RestartTimeout)"
proof -
  have a: "poseJumpCooldownTimer (step (Frame fr) w) = poseJumpCooldownTimer w"
    by (rule frame_keeps_timer)
  have b: "poseJumpCooldownTimer (steps (map Frame frs) w) = poseJumpCooldownTimer w"
    by (rule frames_keep_timer)
  have c: "world_running w \<and> 1 / 60 < poseJumpCooldownTimer w \<longrightarrow>
        poseJumpCooldownTimer (step (PoseUpdate nx ny) w) = poseJumpCooldownTimer w - 1 / 60"
    using pose_decrement by simp
  have d: "world_running w \<and> 0 < poseJumpCooldownTimer w \<longrightarrow>
        poseJumpCooldownTimer (step (PoseUpdate nx ny) w) = poseJumpCooldownTimer w - 1 / 60
        \<or> poseJumpCooldownTimer (step (PoseUpdate nx ny) w) = POSE_JUMP_COOLDOWN"
    using pose_decrement_or_start [of w nx ny] by simp
  have e': "\<not> world_running w \<longrightarrow> step (PoseUpdate nx ny) w = w"
    using pose_idle by simp
  have f: "poseJumpCooldownTimer (step e w) \<noteq> poseJumpCooldownTimer w \<longrightarrow>
        is_pose e \<or> e = StartClick \<or> e = RestartTimeout"
    using timer_changes by blast
  from a b c d e' f show ?thesis
    by (intro conjI)
qed

lemma pose_keeps_running:
  "world_running (handlePoseUpdate nx ny w) = world_running w"
proof (cases "world_running w")
  case True
  then obtain g where g: "the_game w = Some g" "isRunning g"
    by (auto simp: world_running_def split: option.splits)
  then have "world_running (handlePoseUpdate nx ny w)"
    by (simp add: world_running_def handlePoseUpdate_def isRunning_def Let_def
        split: option.splits)
  with True show ?thesis by simp
next
  case False
  then show ?thesis by (simp add: pose_idle)
qed

lemma pose_resting_first:
  "world_running w \<Longrightarrow> restingShoulderY w = None \<Longrightarrow> poseJumpCooldownTimer w = 0 \<Longrightarrow>
   0 < ny \<Longrightarrow> ny < 1 \<Longrightarrow>
   restingShoulderY (handlePoseUpdate nx ny w) = Some ny
   \<and> poseJumpCooldownTimer (handlePoseUpdate nx ny w) = 0"
proof -
  assume "world_running w"
  then obtain g where g: "the_game w = Some g" "isRunning g"
    by (auto simp: world_running_def split: option.splits)
  assume "restingShoulderY w = None" "poseJumpCooldownTimer w = 0" "0 < ny" "ny < 1"
  then show ?thesis
    by (simp add: handlePoseUpdate_def g Let_def JUMP_DETECTION_THRESHOLD_def)
qed

lemma playing_running:
  "world_running playing" "restingShoulderY playing = None" "poseJumpCooldownTimer playing = 0"
  using fresh_session_running(1) by (simp_all add: playing_eq world_running_def)

lemma cooling_state:
  "world_running cooling" "poseJumpCooldownTimer cooling = POSE_JUMP_COOLDOWN"
proof -
  let ?w1 = "handlePoseUpdate 0.5 0.5 playing"
  have r1: "world_running ?w1"
    by (simp add: pose_keeps_running playing_running)
  have s1: "restingShoulderY ?w1 = Some 0.5 \<and> poseJumpCooldownTimer ?w1 = 0"
    by (rule pose_resting_first) (simp_all add: playing_running)
  show "world_running cooling"
    using r1 by (simp add: cooling_def pose_keeps_running)
  show "poseJumpCooldownTimer cooling = POSE_JUMP_COOLDOWN"
    using s1 pose_timer [OF r1, of "0.5" "0.4"]
    by (simp add: cooling_def JUMP_DETECTION_THRESHOLD_def)
qed

text \<open>
  C3, as stated, fails: a cooldown started by a detected jump is still at its full
  0.7 seconds after five frames of one second each with no pose sample between them.
\<close>

theorem cooldown_without_samples_counterexample:
  "poseJumpCooldownTimer cooling = POSE_JUMP_COOLDOWN
   \<and> sum_list (map frame_delta five_seconds) = 5
   \<and> POSE_JUMP_COOLDOWN < sum_list (map frame_delta five_seconds)
   \<and> poseJumpCooldownTimer (steps (map Frame five_seconds) cooling) = POSE_JUMP_COOLDOWN
   \<and> 0 < poseJumpCooldownTimer (steps (map Frame five_seconds) cooling)"
  by (simp add: frames_keep_timer cooling_state POSE_JUMP_COOLDOWN_def) (simp add: five_seconds_def)

theorem pose_cooldown_by_samples_witness:
  "poseJumpCooldownTimer (step (PoseUpdate 0.5 0.4) cooling) = POSE_JUMP_COOLDOWN - 1 / 60
   \<and> step (PoseUpdate 0.5 0.4) initial_world = initial_world
   \<and> poseJumpCooldownTimer (step (PoseUpdate 0.5 0.4) playing) \<noteq> poseJumpCooldownTimer (step (PoseUpdate 0.5 0.4) cooling)
   \<and> is_pose (PoseUpdate 0.5 0.4)"
proof -
  note c = pose_cooldown_by_samples [THEN conjunct2, THEN conjunct2, THEN conjunct1, rule_format]
  note d = pose_cooldown_by_samples
    [THEN conjunct2, THEN conjunct2, THEN conjunct2, THEN conjunct1, rule_format]
  note e' = pose_cooldown_by_samples
    [THEN conjunct2, THEN conjunct2, THEN conjunct2, THEN conjunct2, THEN conjunct1, rule_format]
  note f = pose_cooldown_by_samples
    [THEN conjunct2, THEN conjunct2, THEN conjunct2, THEN conjunct2, THEN conjunct2, rule_format]
  have h: "world_running cooling \<and> 1 / 60 < poseJumpCooldownTimer cooling"
    by (simp add: cooling_state POSE_JUMP_COOLDOWN_def)
  have 1: "poseJumpCooldownTimer (step (PoseUpdate 0.5 0.4) cooling) = POSE_JUMP_COOLDOWN - 1 / 60"
    using c [OF h] by (simp add: cooling_state)
  have i: "\<not> world_running initial_world"
    by (simp add: world_running_def initial_world_def)
  have 2: "step (PoseUpdate 0.5 0.4) initial_world = initial_world"
    by (rule e') (rule i)
  have 3: "poseJumpCooldownTimer (step (PoseUpdate 0.5 0.4) cooling) \<noteq> poseJumpCooldownTimer cooling"
    using 1 by (simp add: cooling_state)
  have 4: "is_pose (PoseUpdate 0.5 0.4) \<or> PoseUpdate 0.5 0.4 = StartClick \<or> PoseUpdate 0.5 0.4 = RestartTimeout"
    by (rule f) (rule 3)
  have 5: "poseJumpCooldownTimer (step (PoseUpdate 0.5 0.4) playing) \<noteq> poseJumpCooldownTimer (step (PoseUpdate 0.5 0.4) cooling)"
    using 1 pose_timer [OF playing_running(1), of "0.5" "0.4"]
    by (simp add: playing_running POSE_JUMP_COOLDOWN_def JUMP_DETECTION_THRESHOLD_def)
  from 1 2 5 4 show ?thesis
    by simp
qed

section \<open>Properties of the pools\<close>

lemma returnSystem_lists [simp]:
  "particleSystems (returnSystem s pm) = remove1 s (particleSystems pm)"
  "system_pool (returnSystem s pm) = system_pool pm @ [s]"
  by (simp_all add: returnSystem_def Let_def)

lemma set_remove1_insert: "insert s (set (remove1 s xs)) = insert s (set xs)"
  by (induction xs) auto

lemma particle_reset_lists:
  "particleSystems (particle_reset pm) = []
   \<and> set (system_pool (particle_reset pm)) = set (system_pool pm) \<union> set (particleSystems pm)"
proof (induction pm rule: particle_reset.induct)
  case (1 pm)
  show ?case
  proof (cases "particleSystems pm")
    case Nil
    then show ?thesis
      by (simp add: particle_reset.simps [of pm])
  next
    case (Cons s ss)
    then have ne: "particleSystems pm \<noteq> []" and hd: "hd (particleSystems pm) = s"
      by simp_all
    have IH: "particleSystems (particle_reset (returnSystem s pm)) = []
       \<and> set (system_pool (particle_reset (returnSystem s pm)))
          = set (system_pool (returnSystem s pm)) \<union> set (particleSystems (returnSystem s pm))"
      using "1.IH" [OF ne] hd by simp
    have unf: "particle_reset pm = particle_reset (returnSystem s pm)"
      using ne hd by (simp add: particle_reset.simps [of pm])
    show ?thesis
      using IH Cons by (auto simp: unf)
  qed
qed

lemma release_all_lists:
  "lavaHazards (release_all hs m) = lavaHazards m
   \<and> lava_pool (release_all hs m) = lava_pool m @ map (\<lambda>l. l\<lparr>lava_visible := False\<rparr>) hs
   \<and> set (system_pool (particleManager (release_all hs m)))
        \<union> set (particleSystems (particleManager (release_all hs m)))
      = set (system_pool (particleManager m)) \<union> set (particleSystems (particleManager m))
        \<union> set (emitters_of hs)"
proof (induction hs arbitrary: m)
  case Nil
  show ?case by simp
next
  case (Cons l ls)
  show ?case
  proof (cases "particleSystem l")
    case None
    then show ?thesis
      using Cons.IH [of "m\<lparr>particleManager := particleManager m,
          lava_pool := lava_pool m @ [l\<lparr>lava_visible := False\<rparr>]\<rparr>"]
      by simp
  next
    case (Some s)
    have "insert s (set (remove1 s (particleSystems (particleManager m))))
          = insert s (set (particleSystems (particleManager m)))"
      by (rule set_remove1_insert)
    then show ?thesis
      using Some Cons.IH [of "m\<lparr>particleManager := returnSystem s (particleManager m),
          lava_pool := lava_pool m @ [l\<lparr>lava_visible := False\<rparr>]\<rparr>"]
      by auto
  qed
qed

lemma lava_reset_parts:
  "lavaHazards (lava_reset m) = []"
  "lava_pool (lava_reset m) = lava_pool (release_all (lavaHazards m) m)"
  "particleManager (lava_reset m) = particle_reset (particleManager (release_all (lavaHazards m) m))"
  by (simp_all add: lava_reset_def Let_def)

lemma lava_reset_lists:
  "lavaHazards (lava_reset m) = []
   \<and> particleSystems (particleManager (lava_reset m)) = []
   \<and> lava_pool (lava_reset m) = lava_pool m @ map (\<lambda>l. l\<lparr>lava_visible := False\<rparr>) (lavaHazards m)
   \<and> set (system_pool (particleManager (lava_reset m)))
      = set (system_pool (particleManager m)) \<union> set (particleSystems (particleManager m))
        \<union> set (emitters_of (lavaHazards m))"
proof -
  let ?m1 = "release_all (lavaHazards m) m"
  note R = release_all_lists [of "lavaHazards m" m]
  note P = particle_reset_lists [of "particleManager ?m1"]
  have 1: "lavaHazards (lava_reset m) = []"
    by (rule lava_reset_parts)
  have 2: "particleSystems (particleManager (lava_reset m)) = []"
    unfolding lava_reset_parts using P by (rule conjunct1)
  have 3: "lava_pool (lava_reset m)
           = lava_pool m @ map (\<lambda>l. l\<lparr>lava_visible := False\<rparr>) (lavaHazards m)"
    unfolding lava_reset_parts using R by (elim conjE)
  have "set (system_pool (particleManager (lava_reset m)))
        = set (system_pool (particleManager ?m1)) \<union> set (particleSystems (particleManager ?m1))"
    unfolding lava_reset_parts using P by (rule conjunct2)
  also have "\<dots> = set (system_pool (particleManager m)) \<union> set (particleSystems (particleManager m))
        \<union> set (emitters_of (lavaHazards m))"
    using R by (elim conjE)
  finally have 4: "set (system_pool (particleManager (lava_reset m)))
      = set (system_pool (particleManager m)) \<union> set (particleSystems (particleManager m))
        \<union> set (emitters_of (lavaHazards m))" .
  from 1 2 3 4 show ?thesis
    by (intro conjI)
qed


text \<open>
  C4, amended. \<^verbatim>\<open>stop()\<close> leaves the hazards, the emitters and both pools as
  they are. The release happens when the next session starts: after
  \<^verbatim>\<open>_resetGameState\<close> no hazard and no emitter is active, the hazard pool is the
  old pool followed by every hazard that was active, made invisible, and the emitter pool
  holds what it held, every emitter that was active and every emitter of a hazard that was
  active.
\<close>

theorem reset_releases:
  "lavaManager (game_stop g) = lavaManager g
   \<and> lavaHazards (lavaManager (resetGameState g)) = []
   \<and> particleSystems (particleManager (lavaManager (resetGameState g))) = []
   \<and> lava_pool (lavaManager (resetGameState g))
      = lava_pool (lavaManager g)
        @ map (\<lambda>l. l\<lparr>lava_visible := False\<rparr>) (lavaHazards (lavaManager g))
   \<and> set (system_pool (particleManager (lavaManager (resetGameState g))))
      = set (system_pool (particleManager (lavaManager g)))
        \<union> set (particleSystems (particleManager (lavaManager g)))
        \<union> set (emitters_of (lavaHazards (lavaManager g)))"
proof -
  have r: "lavaManager (resetGameState g) = lava_reset (lavaManager g)"
    by (simp add: resetGameState_def)
  have s: "lavaManager (game_stop g) = lavaManager g"
    by (simp add: game_stop_def)
  show ?thesis
    unfolding r using s lava_reset_lists [of "lavaManager g"] by (intro conjI) (elim conjE, assumption)+
qed

lemma one_second_lava:
  "lavaManager one_second =
     \<lparr>lavaHazards = [\<lparr>lava_ref = 0, lane = 1, lava_z = - 58.15, lava_visible = True,
                      particleSystem = Some 0\<rparr>],
      lava_pool = [], spawnTimer = 0, spawnInterval = 3.75, nextSpawnZ = - 37.5,
      particleManager =
        \<lparr>systems = [0 \<mapsto> \<lparr>sys_z = - 58.15, sys_visible = True\<rparr>],
         particleSystems = [0], system_pool = [], next_ref = 1\<rparr>,
      lava_created = 1\<rparr>"
  by (simp add: one_second_def fresh_session_def game_defs lava_defs particle_defs update_defs
      player_consts)

text \<open>
  C4, as stated, fails: \<^verbatim>\<open>stop()\<close> one second into a session, when the first
  hazard has been spawned, ends the game and leaves the hazard and its emitter active and
  both pools empty.
\<close>

theorem stop_keeps_hazards_counterexample:
  "gameOver (game_stop one_second)
   \<and> \<not> running (game_stop one_second)
   \<and> lavaHazards (lavaManager (game_stop one_second))
      = [\<lparr>lava_ref = 0, lane = 1, lava_z = - 58.15, lava_visible = True, particleSystem = Some 0\<rparr>]
   \<and> lava_pool (lavaManager (game_stop one_second)) = []
   \<and> particleSystems (particleManager (lavaManager (game_stop one_second))) = [0]
   \<and> system_pool (particleManager (lavaManager (game_stop one_second))) = []"
  by (simp add: game_stop_def one_second_lava)

theorem reset_releases_witness:
  "lavaHazards (lavaManager (resetGameState one_second)) = []
   \<and> particleSystems (particleManager (lavaManager (resetGameState one_second))) = []
   \<and> lava_pool (lavaManager (resetGameState one_second))
      = [\<lparr>lava_ref = 0, lane = 1, lava_z = - 58.15, lava_visible = False, particleSystem = Some 0\<rparr>]
   \<and> set (system_pool (particleManager (lavaManager (resetGameState one_second)))) = {0}"
  using reset_releases [of one_second] by (simp add: one_second_lava)

end
